theory Spec2Isabelle
  imports Main
begin

section \<open>Routes and the route set functions (routes.go)\<close>

text \<open>
  A route is an \<^verbatim>\<open>*eskip.Route\<close>. The store reads two things of it: the field \<^verbatim>\<open>Id\<close>
  and the text that the method \<^verbatim>\<open>String()\<close> prints. The eskip package is not part of the
  repository, so the remaining fields are kept as one opaque value and \<^verbatim>\<open>String()\<close> is a
  parameter \<open>str\<close> of every function that calls it. Slices are lists (a nil slice is
  the empty list, both have length zero); every function below builds its result in a
  fresh slice and the store never writes into a route it holds, so values model the
  pointers.
\<close>

record 'b Route =
  route_Id :: string
  route_body :: 'b

type_synonym 'b printer = "'b Route \<Rightarrow> string"

text \<open>
  The inner loop shared by \<^verbatim>\<open>uniqueRoutes\<close> and \<^verbatim>\<open>removeRoutes\<close>: scan a slice for a
  route with the given id, set \<^verbatim>\<open>found\<close> and break.
\<close>

primrec found :: "string \<Rightarrow> 'b Route list \<Rightarrow> bool" where
  "found i [] = False"
| "found i (x # xs) = (if route_Id x = i then True else found i xs)"

fun uniqueRoutes_loop :: "'b Route list \<Rightarrow> 'b Route list \<Rightarrow> 'b Route list" where
  "uniqueRoutes_loop u [] = u"
| "uniqueRoutes_loop u (ri # r) =
     uniqueRoutes_loop (if found (route_Id ri) u then u else u @ [ri]) r"

definition uniqueRoutes :: "'b Route list \<Rightarrow> 'b Route list" where
  "uniqueRoutes r = uniqueRoutes_loop [] r"

fun removeRoutes_loop :: "'b Route list \<Rightarrow> 'b Route list \<Rightarrow> 'b Route list \<Rightarrow> 'b Route list" where
  "removeRoutes_loop c [] b = c"
| "removeRoutes_loop c (ai # a) b =
     removeRoutes_loop (if found (route_Id ai) b then c else c @ [ai]) a b"

definition removeRoutes :: "'b Route list \<Rightarrow> 'b Route list \<Rightarrow> 'b Route list" where
  "removeRoutes a b = removeRoutes_loop [] a b"

text \<open>
  The inner loop of \<^verbatim>\<open>changedRoutes\<close>: the first route of \<open>next\<close> with the id of \<open>pi\<close>
  ends the scan, and is appended when it prints differently.
\<close>

primrec changed_scan :: "'b printer \<Rightarrow> 'b Route \<Rightarrow> 'b Route list \<Rightarrow> 'b Route list" where
  "changed_scan str pi [] = []"
| "changed_scan str pi (ni # next) =
     (if route_Id ni = route_Id pi
      then (if str ni \<noteq> str pi then [ni] else [])
      else changed_scan str pi next)"

fun changedRoutes_loop ::
  "'b printer \<Rightarrow> 'b Route list \<Rightarrow> 'b Route list \<Rightarrow> 'b Route list \<Rightarrow> 'b Route list" where
  "changedRoutes_loop str changed [] next = changed"
| "changedRoutes_loop str changed (pi # prev) next =
     changedRoutes_loop str (changed @ changed_scan str pi next) prev next"

definition changedRoutes :: "'b printer \<Rightarrow> 'b Route list \<Rightarrow> 'b Route list \<Rightarrow> 'b Route list" where
  "changedRoutes str prev next = changedRoutes_loop str [] prev next"

definition routesToIDs :: "'b Route list \<Rightarrow> string list" where
  "routesToIDs r = map route_Id r"

text \<open>The inner loop of \<^verbatim>\<open>idsToRoutes\<close>: the first route with the id, if any.\<close>

primrec id_scan :: "string \<Rightarrow> 'b Route list \<Rightarrow> 'b Route list" where
  "id_scan i [] = []"
| "id_scan i (r # from) = (if route_Id r = i then [r] else id_scan i from)"

fun idsToRoutes_loop :: "'b Route list \<Rightarrow> string list \<Rightarrow> 'b Route list \<Rightarrow> 'b Route list" where
  "idsToRoutes_loop routes [] from = routes"
| "idsToRoutes_loop routes (i # ids) from = idsToRoutes_loop (routes @ id_scan i from) ids from"

definition idsToRoutes :: "string list \<Rightarrow> 'b Route list \<Rightarrow> 'b Route list" where
  "idsToRoutes ids from = idsToRoutes_loop [] ids from"

definition replaceRoutes ::
  "'b printer \<Rightarrow> 'b Route list \<Rightarrow> 'b Route list \<Rightarrow> 'b Route list \<times> 'b Route list \<times> string list" where
  "replaceRoutes str prev next =
     (let deletedRoutes = removeRoutes prev next;
          insertedRoutes = removeRoutes next prev;
          updatedRoutes = changedRoutes str prev next;
          upserted = insertedRoutes @ updatedRoutes;
          deletedIDs = routesToIDs deletedRoutes
      in (next, upserted, deletedIDs))"

definition upsertRoutes ::
  "'b printer \<Rightarrow> 'b Route list \<Rightarrow> 'b Route list \<Rightarrow> 'b Route list \<times> 'b Route list" where
  "upsertRoutes str to from =
     (let insertedRoutes = removeRoutes from to;
          updatedRoutes = changedRoutes str to from;
          upserted = insertedRoutes @ updatedRoutes;
          unchangedRoutes = removeRoutes to upserted;
          next = unchangedRoutes @ upserted
      in (next, upserted))"

section \<open>The store and its request handlers (spec.go)\<close>

datatype error =
    errMethodNotSupported
  | errNotFound
  | errUnsupportedMediaType
  | errMissedUpdate
  | errBadRequest string

text \<open>
  The fields of \<^verbatim>\<open>Spec\<close> that hold data. Its channels are the events of the run loop
  further down, and the logger is not used by the store. A slice that a handler,
  \<^verbatim>\<open>LoadAll\<close> or \<^verbatim>\<open>LoadUpdate\<close> returns is the list it holds at the moment of the return:
  \<^verbatim>\<open>append(s.defaults, ...)\<close> and \<^verbatim>\<open>append(s.routes, ...)\<close> may write behind the length of
  the store's slice, which changes no slice of the store.
\<close>

record 'b Spec =
  defaults :: "'b Route list"
  routes :: "'b Route list"

record 'b response =
  withContent :: bool
  rsp_routes :: "'b Route list"
  rsp_err :: "error option"

text \<open>
  A request as the filter passes it on. The response channel of the source is the
  output of the run loop's step; \<open>req_accept\<close> is the \<^verbatim>\<open>responseFormat\<close> bit set.
\<close>

record 'b request =
  req_id :: string
  req_method :: string
  req_routes :: "'b Route list"
  req_ids :: "string list"
  req_accept :: nat
  req_pretty :: bool

record 'b updateMessage =
  upd_routes :: "'b Route list"
  deletedIDs :: "string list"
  upd_err :: "error option"

text \<open>The zero values of Go's \<^verbatim>\<open>var rsp response\<close> and \<^verbatim>\<open>var update updateMessage\<close>.\<close>

definition zero_response :: "'b response" where
  "zero_response = \<lparr>withContent = False, rsp_routes = [], rsp_err = None\<rparr>"

definition zero_update :: "'b updateMessage" where
  "zero_update = \<lparr>upd_routes = [], deletedIDs = [], upd_err = None\<rparr>"

definition hasData :: "'b updateMessage \<Rightarrow> bool" where
  "hasData m \<longleftrightarrow>
     length (upd_routes m) \<noteq> 0 \<or> length (deletedIDs m) \<noteq> 0 \<or> upd_err m \<noteq> None"

definition badRequestString :: "string \<Rightarrow> error" where
  "badRequestString s = errBadRequest s"

definition getRoot :: "'b Spec \<Rightarrow> 'b request \<Rightarrow> 'b response" where
  "getRoot s req = \<lparr>withContent = True, rsp_routes = routes s @ defaults s, rsp_err = None\<rparr>"

definition putRoot :: "'b printer \<Rightarrow> 'b Spec \<Rightarrow> 'b request \<Rightarrow> 'b Spec \<times> 'b updateMessage" where
  "putRoot str s req =
     (let rs = uniqueRoutes (req_routes req);
          rs = removeRoutes rs (defaults s);
          (next, upserted, deleted) = replaceRoutes str (routes s) rs
      in (s\<lparr>routes := next\<rparr>, zero_update\<lparr>upd_routes := upserted, deletedIDs := deleted\<rparr>))"

definition patchInRoot :: "'b printer \<Rightarrow> 'b Spec \<Rightarrow> 'b request \<Rightarrow> 'b Spec \<times> 'b updateMessage" where
  "patchInRoot str s req =
     (let rs = uniqueRoutes (req_routes req);
          rs = removeRoutes rs (defaults s);
          (next, upserted) = upsertRoutes str (routes s) rs
      in (s\<lparr>routes := next\<rparr>, zero_update\<lparr>upd_routes := upserted\<rparr>))"

definition deleteFromRoot :: "'b Spec \<Rightarrow> 'b request \<Rightarrow> 'b Spec \<times> 'b updateMessage" where
  "deleteFromRoot s req =
     (let rs = idsToRoutes (req_ids req) (routes s);
          rs = rs @ req_routes req;
          rs = uniqueRoutes rs;
          rs = removeRoutes rs (defaults s);
          rs = removeRoutes rs (removeRoutes rs (routes s))
      in (s\<lparr>routes := removeRoutes (routes s) rs\<rparr>, zero_update\<lparr>deletedIDs := routesToIDs rs\<rparr>))"

definition get :: "'b Spec \<Rightarrow> 'b request \<Rightarrow> 'b response" where
  "get s req =
     (let rs = idsToRoutes [req_id req] (defaults s @ routes s)
      in if length rs = 0 then zero_response\<lparr>rsp_err := Some errNotFound\<rparr>
         else \<lparr>withContent = True, rsp_routes = rs, rsp_err = None\<rparr>)"

text \<open>
  \<^verbatim>\<open>req.routes[0].Id = req.id\<close>, which \<^verbatim>\<open>put\<close> and \<^verbatim>\<open>patch\<close> run only after they have
  checked that the request carries exactly one route.
\<close>

definition force_id :: "'b request \<Rightarrow> 'b Route list" where
  "force_id req = (req_routes req)[0 := (req_routes req ! 0)\<lparr>route_Id := req_id req\<rparr>]"

definition put ::
  "'b printer \<Rightarrow> 'b Spec \<Rightarrow> 'b request \<Rightarrow> 'b Spec \<times> 'b response \<times> 'b updateMessage" where
  "put str s req =
     (if length (req_routes req) \<noteq> 1
      then (s, zero_response\<lparr>rsp_err := Some (badRequestString ''exactly one route expected'')\<rparr>,
            zero_update)
      else let rs = removeRoutes (force_id req) (defaults s)
           in if length rs = 0 then (s, zero_response, zero_update)
              else let (next, upserted) = upsertRoutes str (routes s) rs
                   in (s\<lparr>routes := next\<rparr>, zero_response, zero_update\<lparr>upd_routes := upserted\<rparr>))"

definition patch ::
  "'b printer \<Rightarrow> 'b Spec \<Rightarrow> 'b request \<Rightarrow> 'b Spec \<times> 'b response \<times> 'b updateMessage" where
  "patch str s req =
     (let rs = idsToRoutes [req_id req] (defaults s @ routes s)
      in if length rs = 0 then (s, zero_response\<lparr>rsp_err := Some errNotFound\<rparr>, zero_update)
         else if length (req_routes req) \<noteq> 1
         then (s, zero_response\<lparr>rsp_err := Some (badRequestString ''exactly one route expected'')\<rparr>,
               zero_update)
         else let rs = removeRoutes rs (defaults s)
              in if length rs = 0 then (s, zero_response, zero_update)
                 else let (next, upserted) = upsertRoutes str (routes s) (force_id req)
                      in (s\<lparr>routes := next\<rparr>, zero_response,
                          zero_update\<lparr>upd_routes := upserted\<rparr>))"

definition del :: "'b Spec \<Rightarrow> 'b request \<Rightarrow> 'b Spec \<times> 'b response \<times> 'b updateMessage" where
  "del s req =
     (let rs = idsToRoutes [req_id req] (routes s)
      in if length rs = 0 then (s, zero_response\<lparr>rsp_err := Some errNotFound\<rparr>, zero_update)
         else (s\<lparr>routes := removeRoutes (routes s) rs\<rparr>, zero_response,
               zero_update\<lparr>deletedIDs := routesToIDs rs\<rparr>))"

definition handleRoot ::
  "'b printer \<Rightarrow> 'b Spec \<Rightarrow> 'b request \<Rightarrow> 'b Spec \<times> 'b response \<times> 'b updateMessage" where
  "handleRoot str s req =
     (if req_method req = ''HEAD'' \<or> req_method req = ''GET''
      then (s, getRoot s req, zero_update)
      else if req_method req = ''PUT'' \<or> req_method req = ''POST''
      then (let (s', update) = putRoot str s req in (s', zero_response, update))
      else if req_method req = ''PATCH''
      then (let (s', update) = patchInRoot str s req in (s', zero_response, update))
      else if req_method req = ''DELETE''
      then (let (s', update) = deleteFromRoot s req in (s', zero_response, update))
      else (s, zero_response, zero_update))"

definition handleIndividual ::
  "'b printer \<Rightarrow> 'b Spec \<Rightarrow> 'b request \<Rightarrow> 'b Spec \<times> 'b response \<times> 'b updateMessage" where
  "handleIndividual str s req =
     (if req_method req = ''HEAD'' \<or> req_method req = ''GET''
      then (s, get s req, zero_update)
      else if req_method req = ''PUT'' \<or> req_method req = ''POST''
      then put str s req
      else if req_method req = ''PATCH''
      then patch str s req
      else if req_method req = ''DELETE''
      then del s req
      else (s, zero_response, zero_update))"

definition handle ::
  "'b printer \<Rightarrow> 'b Spec \<Rightarrow> 'b request \<Rightarrow> 'b Spec \<times> 'b response \<times> 'b updateMessage" where
  "handle str s req =
     (if req_id req = '''' then handleRoot str s req else handleIndividual str s req)"

section \<open>The run loop and its callers\<close>

text \<open>
  The state of the goroutine \<^verbatim>\<open>run\<close> and of the channels it selects on. \<open>updateRelay\<close> is
  true when the local variable of that name holds \<^verbatim>\<open>s.update\<close> and false when it is nil;
  \<open>stop_closed\<close> says that \<^verbatim>\<open>Close\<close> has closed \<^verbatim>\<open>s.stop\<close>; \<open>returned\<close> says that
  \<^verbatim>\<open>run\<close> has left its loop; \<open>receivers\<close> counts the goroutines blocked in
  \<^verbatim>\<open>LoadUpdate\<close> on the receive from the unbuffered channel \<^verbatim>\<open>s.update\<close>.
\<close>

record 'b system =
  spec :: "'b Spec"
  updateRelay :: bool
  updateToSend :: "'b updateMessage"
  stop_closed :: bool
  returned :: bool
  receivers :: nat

text \<open>
  One event is one communication: a case of the \<^verbatim>\<open>select\<close> in \<^verbatim>\<open>run\<close> together with
  the caller on the other end of the channel, or a caller that starts to wait.
\<close>

datatype 'b event =
    RecvGetAll
  | SendUpdate
  | RecvRequest "'b request"
  | RecvStop
  | CallLoadUpdate
  | CallClose

datatype 'b outcome =
    LoadAllReturns "'b Route list" "error option"
  | LoadUpdateReturns "'b Route list" "string list" "error option"
  | Responded "'b response"
  | RunReturns
  | LoadUpdateBlocks
  | CloseReturns

text \<open>
  \<^verbatim>\<open>New\<close>; the package variable \<^verbatim>\<open>SelfRoutes\<close> is a parameter, since its routes are
  values of the eskip package.
\<close>

definition New :: "'b Route list \<Rightarrow> 'b Route list \<Rightarrow> 'b system" where
  "New SelfRoutes DefaultRoutes =
     (let d = (if length DefaultRoutes = 0 then SelfRoutes else DefaultRoutes)
      in \<lparr>spec = \<lparr>defaults = uniqueRoutes d, routes = []\<rparr>,
          updateRelay = False, updateToSend = zero_update,
          stop_closed = False, returned = False, receivers = 0\<rparr>)"

text \<open>What \<^verbatim>\<open>LoadAll\<close> returns from the message \<open>m\<close> it received, and \<^verbatim>\<open>LoadUpdate\<close> from \<open>u\<close>.\<close>

definition LoadAll :: "'b Spec \<Rightarrow> 'b updateMessage \<Rightarrow> 'b outcome" where
  "LoadAll s m = LoadAllReturns (defaults s @ upd_routes m) (upd_err m)"

definition LoadUpdate :: "'b updateMessage \<Rightarrow> 'b outcome" where
  "LoadUpdate u = LoadUpdateReturns (upd_routes u) (deletedIDs u) (upd_err u)"

text \<open>
  One step of the system; \<open>None\<close> when the event cannot happen in the state. The first
  four events are the cases of the \<^verbatim>\<open>select\<close>, none of which can be taken once \<^verbatim>\<open>run\<close>
  has returned. A send on the nil channel never proceeds, and a send on \<^verbatim>\<open>s.update\<close>
  needs a receiver. The receive from \<^verbatim>\<open>s.stop\<close> proceeds only when the channel is
  closed. A second \<^verbatim>\<open>Close\<close> panics in Go and is not an event here.
\<close>

fun step :: "'b printer \<Rightarrow> 'b system \<Rightarrow> 'b event \<Rightarrow> ('b system \<times> 'b outcome) option" where
  "step str y RecvGetAll =
     (if returned y then None
      else Some (y, LoadAll (spec y) (zero_update\<lparr>upd_routes := routes (spec y)\<rparr>)))"
| "step str y SendUpdate =
     (if returned y \<or> \<not> updateRelay y \<or> receivers y = 0 then None
      else Some (y\<lparr>updateRelay := False, receivers := receivers y - 1\<rparr>,
                 LoadUpdate (updateToSend y)))"
| "step str y (RecvRequest req) =
     (if returned y then None
      else let (s', rsp, update) = handle str (spec y) req;
               y' = y\<lparr>spec := s'\<rparr>;
               y' = (if hasData update
                     then (if \<not> updateRelay y'
                           then y'\<lparr>updateRelay := True, updateToSend := update\<rparr>
                           else y'\<lparr>updateToSend := zero_update\<lparr>upd_err := Some errMissedUpdate\<rparr>\<rparr>)
                     else y')
           in Some (y', Responded rsp))"
| "step str y RecvStop =
     (if returned y \<or> \<not> stop_closed y then None
      else Some (y\<lparr>returned := True\<rparr>, RunReturns))"
| "step str y CallLoadUpdate = Some (y\<lparr>receivers := receivers y + 1\<rparr>, LoadUpdateBlocks)"
| "step str y CallClose =
     (if stop_closed y then None else Some (y\<lparr>stop_closed := True\<rparr>, CloseReturns))"

text \<open>
  A schedule is a list of events tried in order; an event that cannot happen is passed
  over. The result is the last state and the outputs in order.
\<close>

fun exec :: "'b printer \<Rightarrow> 'b system \<Rightarrow> 'b event list \<Rightarrow> 'b system \<times> 'b outcome list" where
  "exec str y [] = (y, [])"
| "exec str y (e # es) =
     (case step str y e of
        None \<Rightarrow> exec str y es
      | Some (y', out) \<Rightarrow> (let (z, outs) = exec str y' es in (z, out # outs)))"

section \<open>The spec's words, for comparison\<close>

text \<open>
  \<^verbatim>\<open>unique(set)\<close>: "drop later duplicates by id, keep first-seen order". The route at
  position \<open>i\<close> stays exactly when no earlier position has its id.
\<close>

definition first_occurrences :: "'b Route list \<Rightarrow> 'b Route list" where
  "first_occurrences S =
     map (\<lambda>i. S ! i)
       (filter (\<lambda>i. route_Id (S ! i) \<notin> route_Id ` set (take i S)) [0..<length S])"

text \<open>A set "with all default-set identifiers removed".\<close>

definition without_ids :: "'b Route list \<Rightarrow> 'b Route list \<Rightarrow> 'b Route list" where
  "without_ids S D = filter (\<lambda>r. route_Id r \<notin> route_Id ` set D) S"

section \<open>Invariants\<close>

text \<open>No route of the working set carries the id of a default route.\<close>

definition disjoint_defaults :: "'b Spec \<Rightarrow> bool" where
  "disjoint_defaults s \<longleftrightarrow> route_Id ` set (routes s) \<inter> route_Id ` set (defaults s) = {}"

text \<open>The same of the store of a system, and the update to send names no default id as deleted.\<close>

definition protects_defaults :: "'b system \<Rightarrow> bool" where
  "protects_defaults y \<longleftrightarrow>
     disjoint_defaults (spec y)
     \<and> set (deletedIDs (updateToSend y)) \<inter> route_Id ` set (defaults (spec y)) = {}"

section \<open>Example values\<close>

text \<open>
  Routes whose body is the text they print, and requests as the filter builds them
  (\<open>req_accept = 2\<close> is \<^verbatim>\<open>responseFormatText\<close>), for the concrete instances below.
\<close>

abbreviation Rt :: "string \<Rightarrow> string \<Rightarrow> string Route" where
  "Rt i b \<equiv> \<lparr>route_Id = i, route_body = b\<rparr>"

abbreviation Req :: "string \<Rightarrow> string \<Rightarrow> string Route list \<Rightarrow> string list \<Rightarrow> string request" where
  "Req i m rs ds \<equiv>
     \<lparr>req_id = i, req_method = m, req_routes = rs, req_ids = ds, req_accept = 2, req_pretty = True\<rparr>"

abbreviation Upd :: "string Route list \<Rightarrow> string list \<Rightarrow> error option \<Rightarrow> string updateMessage" where
  "Upd rs ds e \<equiv> \<lparr>upd_routes = rs, deletedIDs = ds, upd_err = e\<rparr>"

text \<open>A running system: defaults, working set, relay variable, update to send, receivers.\<close>

abbreviation Sys ::
  "string Route list \<Rightarrow> string Route list \<Rightarrow> bool \<Rightarrow> string updateMessage \<Rightarrow> nat
     \<Rightarrow> string system" where
  "Sys D W relay u n \<equiv>
     \<lparr>spec = \<lparr>defaults = D, routes = W\<rparr>, updateRelay = relay, updateToSend = u,
      stop_closed = False, returned = False, receivers = n\<rparr>"

section \<open>The loops as list functions\<close>

lemma found_iff: "found i xs \<longleftrightarrow> i \<in> route_Id ` set xs"
  by (induction xs) auto

lemma removeRoutes_loop_eq:
  "removeRoutes_loop c a b = c @ filter (\<lambda>r. route_Id r \<notin> route_Id ` set b) a"
  by (induction a arbitrary: c) (simp_all add: found_iff)

lemma removeRoutes_eq: "removeRoutes a b = without_ids a b"
  by (simp add: removeRoutes_def without_ids_def removeRoutes_loop_eq)

lemma id_scan_subset: "set (id_scan i xs) \<subseteq> set xs"
  by (induction xs) auto

lemma id_scan_id: "r \<in> set (id_scan i xs) \<Longrightarrow> route_Id r = i"
  by (induction xs) (auto split: if_splits)

lemma id_scan_Nil_iff: "id_scan i xs = [] \<longleftrightarrow> i \<notin> route_Id ` set xs"
  by (induction xs) auto

lemma id_scan_append:
  "id_scan i (xs @ ys) = (if i \<in> route_Id ` set xs then id_scan i xs else id_scan i ys)"
  by (induction xs) auto

lemma idsToRoutes_loop_eq:
  "idsToRoutes_loop acc ids from = acc @ concat (map (\<lambda>i. id_scan i from) ids)"
  by (induction ids arbitrary: acc) simp_all

lemma idsToRoutes_eq: "idsToRoutes ids from = concat (map (\<lambda>i. id_scan i from) ids)"
  by (simp add: idsToRoutes_def idsToRoutes_loop_eq)

lemma changed_scan_subset: "set (changed_scan str p next) \<subseteq> set next"
  by (induction "next") auto

lemma changed_scan_id: "r \<in> set (changed_scan str p next) \<Longrightarrow> route_Id r = route_Id p"
  by (induction "next") (auto split: if_splits)

lemma changedRoutes_loop_eq:
  "changedRoutes_loop str acc prev next = acc @ concat (map (\<lambda>p. changed_scan str p next) prev)"
  by (induction prev arbitrary: acc) simp_all

lemma changedRoutes_eq:
  "changedRoutes str prev next = concat (map (\<lambda>p. changed_scan str p next) prev)"
  by (simp add: changedRoutes_def changedRoutes_loop_eq)

lemma changedRoutes_subset: "set (changedRoutes str prev next) \<subseteq> set next"
  using changed_scan_subset by (fastforce simp: changedRoutes_eq)

lemma changedRoutes_ids: "route_Id ` set (changedRoutes str prev next) \<subseteq> route_Id ` set prev"
  by (auto simp: changedRoutes_eq dest: changed_scan_id)

subsection \<open>\<^verbatim>\<open>uniqueRoutes\<close> keeps the first occurrence of every id\<close>

lemma first_occurrences_snoc:
  "first_occurrences (xs @ [x]) =
     first_occurrences xs @ (if route_Id x \<in> route_Id ` set xs then [] else [x])"
proof -
  let ?keep = "\<lambda>i. route_Id (xs ! i) \<notin> route_Id ` set (take i xs)"
  have "filter (\<lambda>i. route_Id ((xs @ [x]) ! i) \<notin> route_Id ` set (take i (xs @ [x])))
          [0..<length xs] = filter ?keep [0..<length xs]"
    by (rule filter_cong) (simp_all add: nth_append)
  moreover have "map (\<lambda>i. (xs @ [x]) ! i) (filter ?keep [0..<length xs])
      = map (\<lambda>i. xs ! i) (filter ?keep [0..<length xs])"
    by (rule map_cong) (simp_all add: nth_append)
  ultimately show ?thesis
    by (simp add: first_occurrences_def)
qed

lemma first_occurrences_ids: "route_Id ` set (first_occurrences xs) = route_Id ` set xs"
proof (induction xs rule: rev_induct)
  case Nil
  show ?case by (simp add: first_occurrences_def)
next
  case (snoc x xs)
  then show ?case by (auto simp: first_occurrences_snoc)
qed

lemma uniqueRoutes_loop_eq:
  "uniqueRoutes_loop (first_occurrences p) r = first_occurrences (p @ r)"
proof (induction r arbitrary: p)
  case Nil
  then show ?case by simp
next
  case (Cons ri r)
  have "uniqueRoutes_loop (first_occurrences p) (ri # r)
      = uniqueRoutes_loop (first_occurrences (p @ [ri])) r"
    by (simp add: found_iff first_occurrences_ids first_occurrences_snoc)
  then show ?case using Cons.IH [of "p @ [ri]"] by simp
qed

lemma uniqueRoutes_eq: "uniqueRoutes r = first_occurrences r"
  using uniqueRoutes_loop_eq [of "[]" r] by (simp add: uniqueRoutes_def first_occurrences_def)

section \<open>Root operations\<close>

text \<open>
  C3. After a root Replace (PUT or POST with an empty target id), the working set is the
  supplied set with only the first occurrence of every id kept and with every route
  that carries a default id removed, whatever the working set was before; the defaults
  stay as they were and the request gets no error.
\<close>

theorem putRoot_replaces_working_set:
  assumes "req_id req = ''''"
    and "req_method req = ''PUT'' \<or> req_method req = ''POST''"
  shows "routes (fst (handle str s req))
           = without_ids (first_occurrences (req_routes req)) (defaults s)
         \<and> defaults (fst (handle str s req)) = defaults s
         \<and> rsp_err (fst (snd (handle str s req))) = None"
  using assms
  by (auto simp: handle_def handleRoot_def putRoot_def replaceRoutes_def Let_def
      uniqueRoutes_eq removeRoutes_eq zero_response_def)

theorem putRoot_replaces_working_set_witness:
  "req_id (Req '''' ''PUT'' [Rt ''foo'' ''X'', Rt ''__config'' ''Z'', Rt ''foo'' ''Y''] []) = ''''
   \<and> req_method (Req '''' ''PUT'' [Rt ''foo'' ''X'', Rt ''__config'' ''Z'', Rt ''foo'' ''Y''] []) = ''PUT''
   \<and> routes (fst (handle route_body
        \<lparr>defaults = [Rt ''__config'' ''A''], routes = [Rt ''bar'' ''B'']\<rparr>
        (Req '''' ''PUT'' [Rt ''foo'' ''X'', Rt ''__config'' ''Z'', Rt ''foo'' ''Y''] [])))
      = [Rt ''foo'' ''X'']"
  using putRoot_replaces_working_set
    [of "Req '''' ''PUT'' [Rt ''foo'' ''X'', Rt ''__config'' ''Z'', Rt ''foo'' ''Y''] []"
        route_body "\<lparr>defaults = [Rt ''__config'' ''A''], routes = [Rt ''bar'' ''B'']\<rparr>"]
  by (simp add: first_occurrences_def without_ids_def)

subsection \<open>Upsert\<close>

lemma without_ids_ids:
  "route_Id ` set (without_ids a b) = route_Id ` set a - route_Id ` set b"
  by (auto simp: without_ids_def)

lemma without_ids_subset: "set (without_ids a b) \<subseteq> set a"
  by (auto simp: without_ids_def)

lemma id_scan_filter_ids:
  "id_scan i (filter (\<lambda>r. route_Id r \<notin> X) W) = (if i \<in> X then [] else id_scan i W)"
  by (induction W) auto

lemma upsertRoutes_eq:
  "upsertRoutes str to from =
     (let upserted = without_ids from to @ changedRoutes str to from
      in (without_ids to upserted @ upserted, upserted))"
  by (simp add: upsertRoutes_def Let_def removeRoutes_eq)

lemma upserted_subset: "set (snd (upsertRoutes str to from)) \<subseteq> set from"
  using changedRoutes_subset [of str to "from"] without_ids_subset [of "from" to]
  by (auto simp: upsertRoutes_eq Let_def)

lemma upsertRoutes_next_subset: "set (fst (upsertRoutes str to from)) \<subseteq> set to \<union> set from"
  using upserted_subset [of str to "from"] without_ids_subset [of to]
  by (auto simp: upsertRoutes_eq Let_def)

lemma upsertRoutes_keeps:
  assumes "w \<in> set to" and "route_Id w \<notin> route_Id ` set from"
  shows "w \<in> set (fst (upsertRoutes str to from))"
    and "id_scan (route_Id w) (fst (upsertRoutes str to from)) = id_scan (route_Id w) to"
proof -
  let ?u = "snd (upsertRoutes str to from)"
  have next_eq: "fst (upsertRoutes str to from) = without_ids to ?u @ ?u"
    by (simp add: upsertRoutes_eq Let_def)
  have notin: "route_Id w \<notin> route_Id ` set ?u"
    using assms(2) upserted_subset [of str to "from"] by blast
  then have kept: "w \<in> set (without_ids to ?u)"
    using assms(1) by (simp add: without_ids_def)
  then show "w \<in> set (fst (upsertRoutes str to from))"
    by (simp add: next_eq)
  have "route_Id w \<in> route_Id ` set (without_ids to ?u)"
    using kept by blast
  then have "id_scan (route_Id w) (fst (upsertRoutes str to from))
      = id_scan (route_Id w) (without_ids to ?u)"
    by (simp add: next_eq id_scan_append)
  also have "\<dots> = id_scan (route_Id w) to"
    using notin by (simp add: without_ids_def id_scan_filter_ids)
  finally show "id_scan (route_Id w) (fst (upsertRoutes str to from)) = id_scan (route_Id w) to" .
qed

lemma upsertRoutes_ids_grow:
  "route_Id ` set to \<subseteq> route_Id ` set (fst (upsertRoutes str to from))"
  by (auto simp: upsertRoutes_eq Let_def without_ids_def)

lemma handle_patchInRoot:
  assumes "req_id req = ''''" and "req_method req = ''PATCH''"
  shows "handle str s req =
     (s\<lparr>routes := fst (upsertRoutes str (routes s)
                        (without_ids (first_occurrences (req_routes req)) (defaults s)))\<rparr>,
      zero_response,
      zero_update\<lparr>upd_routes := snd (upsertRoutes str (routes s)
                        (without_ids (first_occurrences (req_routes req)) (defaults s)))\<rparr>)"
  using assms
  by (simp add: handle_def handleRoot_def patchInRoot_def Let_def uniqueRoutes_eq
      removeRoutes_eq split_beta)

text \<open>
  C6. After a root Upsert (PATCH with an empty target id), every route of the prior
  working set whose id does not occur in the supplied set is still in the working set,
  the same value, and a lookup of its id finds what it found before; every id of the
  prior working set is still present, and the update names no deleted id.
\<close>

theorem patchInRoot_never_deletes:
  assumes "req_id req = ''''" and "req_method req = ''PATCH''"
  shows "(\<forall>w \<in> set (routes s). route_Id w \<notin> route_Id ` set (req_routes req) \<longrightarrow>
            w \<in> set (routes (fst (handle str s req)))
            \<and> id_scan (route_Id w) (routes (fst (handle str s req)))
                = id_scan (route_Id w) (routes s))
         \<and> route_Id ` set (routes s) \<subseteq> route_Id ` set (routes (fst (handle str s req)))
         \<and> deletedIDs (snd (snd (handle str s req))) = []
         \<and> rsp_err (fst (snd (handle str s req))) = None"
proof -
  let ?S = "without_ids (first_occurrences (req_routes req)) (defaults s)"
  have sub: "route_Id ` set ?S \<subseteq> route_Id ` set (req_routes req)"
    by (auto simp: without_ids_ids first_occurrences_ids)
  have "\<forall>w \<in> set (routes s). route_Id w \<notin> route_Id ` set (req_routes req) \<longrightarrow>
      w \<in> set (fst (upsertRoutes str (routes s) ?S))
      \<and> id_scan (route_Id w) (fst (upsertRoutes str (routes s) ?S)) = id_scan (route_Id w) (routes s)"
    using sub upsertRoutes_keeps [of _ "routes s" ?S str] by blast
  then show ?thesis
    using upsertRoutes_ids_grow [of "routes s" str ?S]
    by (simp add: handle_patchInRoot [OF assms] zero_update_def zero_response_def)
qed

theorem patchInRoot_never_deletes_witness:
  "req_id (Req '''' ''PATCH'' [Rt ''bar'' ''Z'', Rt ''baz'' ''Q''] []) = ''''
   \<and> req_method (Req '''' ''PATCH'' [Rt ''bar'' ''Z'', Rt ''baz'' ''Q''] []) = ''PATCH''
   \<and> Rt ''foo'' ''X'' \<in> set (routes \<lparr>defaults = [Rt ''__config'' ''A''],
                                      routes = [Rt ''foo'' ''X'', Rt ''bar'' ''Y'']\<rparr>)
   \<and> route_Id (Rt ''foo'' ''X'')
       \<notin> route_Id ` set (req_routes (Req '''' ''PATCH'' [Rt ''bar'' ''Z'', Rt ''baz'' ''Q''] []))
   \<and> Rt ''foo'' ''X'' \<in> set (routes (fst (handle route_body
         \<lparr>defaults = [Rt ''__config'' ''A''], routes = [Rt ''foo'' ''X'', Rt ''bar'' ''Y'']\<rparr>
         (Req '''' ''PATCH'' [Rt ''bar'' ''Z'', Rt ''baz'' ''Q''] []))))
   \<and> deletedIDs (snd (snd (handle route_body
         \<lparr>defaults = [Rt ''__config'' ''A''], routes = [Rt ''foo'' ''X'', Rt ''bar'' ''Y'']\<rparr>
         (Req '''' ''PATCH'' [Rt ''bar'' ''Z'', Rt ''baz'' ''Q''] [])))) = []"
  using patchInRoot_never_deletes
    [of "Req '''' ''PATCH'' [Rt ''bar'' ''Z'', Rt ''baz'' ''Q''] []"
        "\<lparr>defaults = [Rt ''__config'' ''A''], routes = [Rt ''foo'' ''X'', Rt ''bar'' ''Y'']\<rparr>"
        route_body]
  by simp

subsection \<open>Delete by ids or by set\<close>

lemma idsToRoutes_ids:
  "route_Id ` set (idsToRoutes ids W) = set ids \<inter> route_Id ` set W"
proof
  show "route_Id ` set (idsToRoutes ids W) \<subseteq> set ids \<inter> route_Id ` set W"
    using id_scan_subset by (fastforce simp: idsToRoutes_eq dest: id_scan_id)
next
  show "set ids \<inter> route_Id ` set W \<subseteq> route_Id ` set (idsToRoutes ids W)"
  proof
    fix i assume i: "i \<in> set ids \<inter> route_Id ` set W"
    then have "id_scan i W \<noteq> []" by (simp add: id_scan_Nil_iff)
    then obtain r where r: "r \<in> set (id_scan i W)" by (cases "id_scan i W") auto
    then have "route_Id r = i" by (rule id_scan_id)
    moreover have "r \<in> set (idsToRoutes ids W)"
      using i r by (auto simp: idsToRoutes_eq)
    ultimately show "i \<in> route_Id ` set (idsToRoutes ids W)" by blast
  qed
qed

lemma first_occurrences_distinct: "distinct (map route_Id (first_occurrences xs))"
proof (induction xs rule: rev_induct)
  case Nil
  show ?case by (simp add: first_occurrences_def)
next
  case (snoc x xs)
  then show ?case by (simp add: first_occurrences_snoc first_occurrences_ids)
qed

text \<open>The double subtraction of \<^verbatim>\<open>deleteFromRoot\<close> keeps the routes whose id the second set has.\<close>

lemma double_subtraction:
  "without_ids rs (without_ids rs W) = filter (\<lambda>r. route_Id r \<in> route_Id ` set W) rs"
  unfolding without_ids_def by (rule filter_cong) auto

lemma filter_ids:
  "route_Id ` set (filter (\<lambda>r. route_Id r \<in> X) cs) = route_Id ` set cs \<inter> X"
  by auto

lemma handle_deleteFromRoot:
  assumes "req_id req = ''''" and "req_method req = ''DELETE''"
  shows "handle str s req =
     (let rs = filter (\<lambda>r. route_Id r \<in> route_Id ` set (routes s))
                 (without_ids (first_occurrences (idsToRoutes (req_ids req) (routes s) @ req_routes req))
                    (defaults s))
      in (s\<lparr>routes := without_ids (routes s) rs\<rparr>, zero_response,
          zero_update\<lparr>deletedIDs := map route_Id rs\<rparr>))"
  using assms
  by (simp add: handle_def handleRoot_def deleteFromRoot_def Let_def uniqueRoutes_eq
      removeRoutes_eq double_subtraction routesToIDs_def)

text \<open>
  C5. A root Delete (DELETE with an empty target id) takes as candidates the ids of
  the request that the working set has and the ids of the supplied routes, less the
  default ids. It removes from the working set exactly the routes whose id is a
  candidate, so a candidate that the working set does not have changes nothing, and
  the request gets no error. The deleted ids of the update are the candidates that the
  working set had, each once: the ids of the removed routes.
\<close>

theorem deleteFromRoot_removes_present_candidates:
  assumes "req_id req = ''''" and "req_method req = ''DELETE''"
  shows "routes (fst (handle str s req))
           = filter (\<lambda>r. route_Id r \<notin>
                 ((set (req_ids req) \<inter> route_Id ` set (routes s)) \<union> route_Id ` set (req_routes req))
                   - route_Id ` set (defaults s))
               (routes s)
         \<and> set (deletedIDs (snd (snd (handle str s req))))
             = (((set (req_ids req) \<inter> route_Id ` set (routes s)) \<union> route_Id ` set (req_routes req))
                   - route_Id ` set (defaults s)) \<inter> route_Id ` set (routes s)
         \<and> set (deletedIDs (snd (snd (handle str s req))))
             = route_Id ` (set (routes s) - set (routes (fst (handle str s req))))
         \<and> distinct (deletedIDs (snd (snd (handle str s req))))
         \<and> upd_routes (snd (snd (handle str s req))) = []
         \<and> defaults (fst (handle str s req)) = defaults s
         \<and> rsp_err (fst (snd (handle str s req))) = None"
proof -
  let ?W = "routes s"
  let ?C = "((set (req_ids req) \<inter> route_Id ` set ?W) \<union> route_Id ` set (req_routes req))
              - route_Id ` set (defaults s)"
  let ?cs = "without_ids (first_occurrences (idsToRoutes (req_ids req) ?W @ req_routes req)) (defaults s)"
  let ?rs = "filter (\<lambda>r. route_Id r \<in> route_Id ` set ?W) ?cs"
  have cs_ids: "route_Id ` set ?cs = ?C"
    by (simp add: without_ids_ids first_occurrences_ids image_Un idsToRoutes_ids)
  have "route_Id ` set ?rs = route_Id ` set ?cs \<inter> route_Id ` set ?W"
    by (rule filter_ids)
  then have rs_ids: "route_Id ` set ?rs = ?C \<inter> route_Id ` set ?W"
    by (simp only: cs_ids)
  have "distinct (map route_Id ?cs)"
    unfolding without_ids_def by (rule distinct_map_filter) (rule first_occurrences_distinct)
  then have rs_distinct: "distinct (map route_Id ?rs)"
    by (rule distinct_map_filter)
  have "\<And>r. r \<in> set ?W \<Longrightarrow> (route_Id r \<notin> route_Id ` set ?rs) = (route_Id r \<notin> ?C)"
    unfolding rs_ids by blast
  then have next_eq: "without_ids ?W ?rs = filter (\<lambda>r. route_Id r \<notin> ?C) ?W"
    unfolding without_ids_def by (intro filter_cong refl)
  have removed: "route_Id ` (set ?W - set (filter (\<lambda>r. route_Id r \<notin> ?C) ?W)) = ?C \<inter> route_Id ` set ?W"
    by auto
  have h: "handle str s req =
      (s\<lparr>routes := without_ids ?W ?rs\<rparr>, zero_response, zero_update\<lparr>deletedIDs := map route_Id ?rs\<rparr>)"
    by (simp add: handle_deleteFromRoot [OF assms] Let_def)
  have 1: "routes (fst (handle str s req)) = filter (\<lambda>r. route_Id r \<notin> ?C) ?W"
    by (simp add: h next_eq)
  have 2: "set (deletedIDs (snd (snd (handle str s req)))) = ?C \<inter> route_Id ` set ?W"
    using rs_ids by (simp add: h)
  have 3: "set (deletedIDs (snd (snd (handle str s req))))
      = route_Id ` (set ?W - set (routes (fst (handle str s req))))"
    unfolding 1 2 removed ..
  have 4: "distinct (deletedIDs (snd (snd (handle str s req))))"
    using rs_distinct by (simp add: h)
  have 5: "upd_routes (snd (snd (handle str s req))) = []
      \<and> defaults (fst (handle str s req)) = defaults s
      \<and> rsp_err (fst (snd (handle str s req))) = None"
    by (simp add: h zero_update_def zero_response_def)
  show ?thesis using 1 2 3 4 5 by blast
qed

theorem deleteFromRoot_removes_present_candidates_witness:
  "req_id (Req '''' ''DELETE'' [Rt ''bar'' ''Q'', Rt ''__config'' ''A''] [''foo'', ''nope'']) = ''''
   \<and> req_method (Req '''' ''DELETE'' [Rt ''bar'' ''Q'', Rt ''__config'' ''A''] [''foo'', ''nope''])
       = ''DELETE''
   \<and> routes (fst (handle route_body
        \<lparr>defaults = [Rt ''__config'' ''A''],
          routes = [Rt ''foo'' ''X'', Rt ''bar'' ''Y'', Rt ''baz'' ''Z'']\<rparr>
        (Req '''' ''DELETE'' [Rt ''bar'' ''Q'', Rt ''__config'' ''A''] [''foo'', ''nope''])))
      = [Rt ''baz'' ''Z'']
   \<and> set (deletedIDs (snd (snd (handle route_body
        \<lparr>defaults = [Rt ''__config'' ''A''],
          routes = [Rt ''foo'' ''X'', Rt ''bar'' ''Y'', Rt ''baz'' ''Z'']\<rparr>
        (Req '''' ''DELETE'' [Rt ''bar'' ''Q'', Rt ''__config'' ''A''] [''foo'', ''nope'']))))) 
      = {''foo'', ''bar''}"
  using deleteFromRoot_removes_present_candidates
    [of "Req '''' ''DELETE'' [Rt ''bar'' ''Q'', Rt ''__config'' ''A''] [''foo'', ''nope'']"
        route_body
        "\<lparr>defaults = [Rt ''__config'' ''A''],
          routes = [Rt ''foo'' ''X'', Rt ''bar'' ''Y'', Rt ''baz'' ''Z'']\<rparr>"]
  by auto

section \<open>Operations on one route\<close>

lemma idsToRoutes_single: "idsToRoutes [i] from = id_scan i from"
  by (simp add: idsToRoutes_eq)

lemma force_id_single:
  "length (req_routes req) = 1 \<Longrightarrow>
     force_id req = [(req_routes req ! 0)\<lparr>route_Id := req_id req\<rparr>]"
  by (cases "req_routes req") (simp_all add: force_id_def)

lemma get_eq:
  "get s req =
     (if req_id req \<in> route_Id ` set (defaults s @ routes s)
      then \<lparr>withContent = True, rsp_routes = id_scan (req_id req) (defaults s @ routes s),
            rsp_err = None\<rparr>
      else zero_response\<lparr>rsp_err := Some errNotFound\<rparr>)"
  using id_scan_Nil_iff [of "req_id req" "defaults s @ routes s"]
  by (simp add: get_def idsToRoutes_single Let_def del: set_append)

lemma put_eq:
  "put str s req =
     (if length (req_routes req) \<noteq> 1
      then (s, zero_response\<lparr>rsp_err := Some (errBadRequest ''exactly one route expected'')\<rparr>,
            zero_update)
      else if req_id req \<in> route_Id ` set (defaults s) then (s, zero_response, zero_update)
      else (s\<lparr>routes := fst (upsertRoutes str (routes s) (force_id req))\<rparr>, zero_response,
            zero_update\<lparr>upd_routes := snd (upsertRoutes str (routes s) (force_id req))\<rparr>))"
  by (auto simp: put_def badRequestString_def Let_def removeRoutes_eq without_ids_def
      force_id_single split_beta)

lemma patch_eq:
  "patch str s req =
     (if req_id req \<notin> route_Id ` set (defaults s @ routes s)
      then (s, zero_response\<lparr>rsp_err := Some errNotFound\<rparr>, zero_update)
      else if length (req_routes req) \<noteq> 1
      then (s, zero_response\<lparr>rsp_err := Some (errBadRequest ''exactly one route expected'')\<rparr>,
            zero_update)
      else if req_id req \<in> route_Id ` set (defaults s) then (s, zero_response, zero_update)
      else (s\<lparr>routes := fst (upsertRoutes str (routes s) (force_id req))\<rparr>, zero_response,
            zero_update\<lparr>upd_routes := snd (upsertRoutes str (routes s) (force_id req))\<rparr>))"
proof -
  let ?found = "id_scan (req_id req) (defaults s @ routes s)"
  have nil: "?found = [] \<longleftrightarrow> req_id req \<notin> route_Id ` set (defaults s @ routes s)"
    by (rule id_scan_Nil_iff)
  have strip: "without_ids ?found (defaults s) = [] \<longleftrightarrow> req_id req \<in> route_Id ` set (defaults s)"
    if "?found \<noteq> []"
  proof -
    have "\<And>r. r \<in> set ?found \<Longrightarrow> route_Id r = req_id req" by (rule id_scan_id)
    then have "without_ids ?found (defaults s)
        = (if req_id req \<in> route_Id ` set (defaults s) then [] else ?found)"
      unfolding without_ids_def by (auto simp: filter_empty_conv filter_id_conv)
    then show ?thesis using that by simp
  qed
  show ?thesis
    using nil strip
    by (simp add: patch_def badRequestString_def Let_def removeRoutes_eq idsToRoutes_single
        split_beta del: set_append)
qed

lemma del_eq:
  "del s req =
     (if req_id req \<notin> route_Id ` set (routes s)
      then (s, zero_response\<lparr>rsp_err := Some errNotFound\<rparr>, zero_update)
      else (s\<lparr>routes := without_ids (routes s) (id_scan (req_id req) (routes s))\<rparr>,
            zero_response,
            zero_update\<lparr>deletedIDs := map route_Id (id_scan (req_id req) (routes s))\<rparr>))"
  using id_scan_Nil_iff [of "req_id req" "routes s"]
  by (simp add: del_def idsToRoutes_single Let_def removeRoutes_eq routesToIDs_def)

subsection \<open>Errors\<close>

lemma handleRoot_no_error: "rsp_err (fst (snd (handleRoot str s req))) = None"
  by (simp add: handleRoot_def getRoot_def zero_response_def split_beta)

lemma handleIndividual_error:
  assumes "rsp_err (fst (snd (handleIndividual str s req))) \<noteq> None"
  shows "fst (handleIndividual str s req) = s
         \<and> snd (snd (handleIndividual str s req)) = zero_update
         \<and> (rsp_err (fst (snd (handleIndividual str s req))) = Some errNotFound
            \<or> rsp_err (fst (snd (handleIndividual str s req)))
                = Some (errBadRequest ''exactly one route expected''))"
  using assms
  by (auto simp: handleIndividual_def get_eq put_eq patch_eq del_eq zero_response_def
      simp del: set_append split: if_splits)

lemma handle_error:
  assumes "rsp_err (fst (snd (handle str s req))) \<noteq> None"
  shows "fst (handle str s req) = s
         \<and> snd (snd (handle str s req)) = zero_update
         \<and> (rsp_err (fst (snd (handle str s req))) = Some errNotFound
            \<or> rsp_err (fst (snd (handle str s req)))
                = Some (errBadRequest ''exactly one route expected''))"
proof (cases "req_id req = ''''")
  case True
  then show ?thesis using assms by (simp add: handle_def handleRoot_no_error)
next
  case False
  then show ?thesis using assms handleIndividual_error [of str s req] by (simp add: handle_def)
qed

lemma zero_update_no_data: "\<not> hasData zero_update"
  by (simp add: hasData_def zero_update_def)

text \<open>When a request fails, by target and method.\<close>

lemma handle_error_iff:
  "rsp_err (fst (snd (handle str s req))) \<noteq> None \<longleftrightarrow>
     req_id req \<noteq> '''' \<and>
     ((req_method req = ''HEAD'' \<or> req_method req = ''GET'')
        \<and> req_id req \<notin> route_Id ` set (defaults s @ routes s)
      \<or> (req_method req = ''PUT'' \<or> req_method req = ''POST'') \<and> length (req_routes req) \<noteq> 1
      \<or> req_method req = ''PATCH''
        \<and> (req_id req \<notin> route_Id ` set (defaults s @ routes s) \<or> length (req_routes req) \<noteq> 1)
      \<or> req_method req = ''DELETE'' \<and> req_id req \<notin> route_Id ` set (routes s))"
proof (cases "req_id req = ''''")
  case True
  then show ?thesis by (simp add: handle_def handleRoot_no_error)
next
  case False
  then show ?thesis
    by (auto simp: handle_def handleIndividual_def get_eq put_eq patch_eq del_eq zero_response_def
        simp del: set_append)
qed

text \<open>
  C7. When the response to a request carries an error, the step of the run loop leaves
  the whole state as it was: the working set, the defaults and the pending update.
  The handler has returned the store unchanged and an update without data, and the
  error is "not found" or "exactly one route expected". The errors are those of
  reading, patching or deleting an id that is not there and of putting or patching with
  no route or several.
\<close>

theorem error_commits_nothing:
  assumes "step str y (RecvRequest req) = Some (y', Responded rsp)"
    and "rsp_err rsp \<noteq> None"
  shows "y' = y
         \<and> fst (handle str (spec y) req) = spec y
         \<and> \<not> hasData (snd (snd (handle str (spec y) req)))
         \<and> (rsp_err rsp = Some errNotFound
            \<or> rsp_err rsp = Some (errBadRequest ''exactly one route expected''))
         \<and> req_id req \<noteq> ''''
         \<and> ((req_method req = ''HEAD'' \<or> req_method req = ''GET'')
               \<and> req_id req \<notin> route_Id ` set (defaults (spec y) @ routes (spec y))
             \<or> (req_method req = ''PUT'' \<or> req_method req = ''POST'')
               \<and> length (req_routes req) \<noteq> 1
             \<or> req_method req = ''PATCH''
               \<and> (req_id req \<notin> route_Id ` set (defaults (spec y) @ routes (spec y))
                  \<or> length (req_routes req) \<noteq> 1)
             \<or> req_method req = ''DELETE'' \<and> req_id req \<notin> route_Id ` set (routes (spec y)))"
proof -
  from assms(1) have run: "\<not> returned y"
    by (simp split: if_splits)
  from assms(1) run have rsp: "rsp = fst (snd (handle str (spec y) req))"
    by (simp add: Let_def split_beta)
  with assms(2) have err: "rsp_err (fst (snd (handle str (spec y) req))) \<noteq> None"
    by simp
  note h = handle_error [OF err]
  from h have same: "fst (handle str (spec y) req) = spec y"
    and none: "snd (snd (handle str (spec y) req)) = zero_update"
    by simp_all
  from assms(1) run have "y' = y"
    by (simp add: Let_def split_beta same none zero_update_no_data)
  moreover have "\<not> hasData (snd (snd (handle str (spec y) req)))"
    by (simp add: none zero_update_no_data)
  ultimately show ?thesis
    using h err rsp handle_error_iff [of str "spec y" req] by blast
qed

theorem error_commits_nothing_witness:
  "step route_body (Sys [Rt ''__config'' ''A''] [Rt ''foo'' ''X''] True (Upd [Rt ''foo'' ''X''] [] None) 0)
       (RecvRequest (Req ''baz'' ''PATCH'' [Rt '''' ''Q''] []))
     = Some (Sys [Rt ''__config'' ''A''] [Rt ''foo'' ''X''] True (Upd [Rt ''foo'' ''X''] [] None) 0,
             Responded \<lparr>withContent = False, rsp_routes = [], rsp_err = Some errNotFound\<rparr>)
   \<and> rsp_err \<lparr>withContent = False, rsp_routes = [], rsp_err = Some errNotFound\<rparr> \<noteq> None
   \<and> fst (handle route_body \<lparr>defaults = [Rt ''__config'' ''A''], routes = [Rt ''foo'' ''X'']\<rparr>
            (Req ''baz'' ''PATCH'' [Rt '''' ''Q''] []))
       = \<lparr>defaults = [Rt ''__config'' ''A''], routes = [Rt ''foo'' ''X'']\<rparr>"
  using error_commits_nothing
    [of route_body "Sys [Rt ''__config'' ''A''] [Rt ''foo'' ''X''] True (Upd [Rt ''foo'' ''X''] [] None) 0"
        "Req ''baz'' ''PATCH'' [Rt '''' ''Q''] []"
        "Sys [Rt ''__config'' ''A''] [Rt ''foo'' ''X''] True (Upd [Rt ''foo'' ''X''] [] None) 0"
        "\<lparr>withContent = False, rsp_routes = [], rsp_err = Some errNotFound\<rparr>"]
  by (simp add: handle_def handleIndividual_def patch_eq zero_response_def zero_update_def
      hasData_def)

section \<open>The defaults are out of reach of requests\<close>

lemma handle_putRoot:
  assumes "req_id req = ''''" and "req_method req = ''PUT'' \<or> req_method req = ''POST''"
  shows "handle str s req =
     (let rs = without_ids (first_occurrences (req_routes req)) (defaults s)
      in (s\<lparr>routes := rs\<rparr>, zero_response,
          zero_update\<lparr>upd_routes := without_ids rs (routes s) @ changedRoutes str (routes s) rs,
                      deletedIDs := map route_Id (without_ids (routes s) rs)\<rparr>))"
  using assms
  by (auto simp: handle_def handleRoot_def putRoot_def replaceRoutes_def Let_def uniqueRoutes_eq
      removeRoutes_eq routesToIDs_def)

lemma handle_getRoot:
  assumes "req_id req = ''''" and "req_method req = ''HEAD'' \<or> req_method req = ''GET''"
  shows "handle str s req = (s, getRoot s req, zero_update)"
  using assms by (auto simp: handle_def handleRoot_def)

lemma handleRoot_other:
  assumes "req_method req \<noteq> ''HEAD''" "req_method req \<noteq> ''GET''" "req_method req \<noteq> ''PUT''"
    "req_method req \<noteq> ''POST''" "req_method req \<noteq> ''PATCH''" "req_method req \<noteq> ''DELETE''"
  shows "handleRoot str s req = (s, zero_response, zero_update)"
  using assms by (simp add: handleRoot_def)

lemma handleRoot_invariant:
  assumes "disjoint_defaults s"
  shows "disjoint_defaults (fst (handleRoot str s req))
         \<and> defaults (fst (handleRoot str s req)) = defaults s
         \<and> set (deletedIDs (snd (snd (handleRoot str s req)))) \<inter> route_Id ` set (defaults s) = {}"
proof -
  have root: "handleRoot str s req = handle str s (req\<lparr>req_id := ''''\<rparr>)"
    by (simp add: handle_def handleRoot_def  putRoot_def patchInRoot_def deleteFromRoot_def getRoot_def)
  let ?q = "req\<lparr>req_id := ''''\<rparr>"
  consider (get) "req_method req = ''HEAD'' \<or> req_method req = ''GET''"
    | (put) "req_method req = ''PUT'' \<or> req_method req = ''POST''"
    | (patch) "req_method req = ''PATCH''"
    | (del) "req_method req = ''DELETE''"
    | (other) "req_method req \<noteq> ''HEAD''" "req_method req \<noteq> ''GET''" "req_method req \<noteq> ''PUT''"
        "req_method req \<noteq> ''POST''" "req_method req \<noteq> ''PATCH''" "req_method req \<noteq> ''DELETE''"
    by blast
  then show ?thesis
  proof cases
    case get
    then show ?thesis using assms
      by (simp add: root handle_getRoot zero_update_def)
  next
    case put
    then have "handle str s ?q =
       (let rs = without_ids (first_occurrences (req_routes ?q)) (defaults s)
        in (s\<lparr>routes := rs\<rparr>, zero_response,
          zero_update\<lparr>upd_routes := without_ids rs (routes s) @ changedRoutes str (routes s) rs,
                      deletedIDs := map route_Id (without_ids (routes s) rs)\<rparr>))"
      by (intro handle_putRoot) simp_all
    then show ?thesis using assms
      by (auto simp: root Let_def disjoint_defaults_def without_ids_ids)
  next
    case patch
    have sub: "set (fst (upsertRoutes str (routes s)
                    (without_ids (first_occurrences (req_routes req)) (defaults s))))
        \<subseteq> set (routes s) \<union> set (without_ids (first_occurrences (req_routes req)) (defaults s))"
      by (rule upsertRoutes_next_subset)
    have "route_Id ` set (fst (upsertRoutes str (routes s)
                    (without_ids (first_occurrences (req_routes req)) (defaults s))))
        \<inter> route_Id ` set (defaults s) = {}"
    proof -
      have "route_Id ` set (without_ids (first_occurrences (req_routes req)) (defaults s))
          \<inter> route_Id ` set (defaults s) = {}"
        by (auto simp: without_ids_ids)
      with sub assms show ?thesis
        unfolding disjoint_defaults_def by blast
    qed
    then show ?thesis using patch
      by (simp add: root handle_patchInRoot disjoint_defaults_def zero_update_def)
  next
    case del
    then have "handle str s ?q =
     (let rs = filter (\<lambda>r. route_Id r \<in> route_Id ` set (routes s))
                 (without_ids (first_occurrences (idsToRoutes (req_ids ?q) (routes s) @ req_routes ?q))
                    (defaults s))
      in (s\<lparr>routes := without_ids (routes s) rs\<rparr>, zero_response,
          zero_update\<lparr>deletedIDs := map route_Id rs\<rparr>))"
      by (intro handle_deleteFromRoot) simp_all
    then show ?thesis using assms
      by (auto simp: root Let_def disjoint_defaults_def without_ids_ids)
  next
    case other
    then show ?thesis using assms
      by (simp add: handleRoot_other zero_update_def)
  qed
qed

lemma disjoint_insert_one: "A \<subseteq> B \<union> {x} \<Longrightarrow> B \<inter> D = {} \<Longrightarrow> x \<notin> D \<Longrightarrow> A \<inter> D = {}"
  by blast

lemma upsert_single_disjoint:
  assumes "disjoint_defaults s" and "length (req_routes req) = 1"
    and "req_id req \<notin> route_Id ` set (defaults s)"
  shows "disjoint_defaults (s\<lparr>routes := fst (upsertRoutes str (routes s) (force_id req))\<rparr>)"
proof -
  let ?next = "fst (upsertRoutes str (routes s) (force_id req))"
  have sub: "set ?next \<subseteq> set (routes s) \<union> set (force_id req)"
    by (rule upsertRoutes_next_subset)
  have single: "force_id req = [(req_routes req ! 0)\<lparr>route_Id := req_id req\<rparr>]"
    using assms(2) by (rule force_id_single)
  have forced: "route_Id ` set (force_id req) = {req_id req}"
    unfolding single by simp
  have "route_Id ` set ?next \<subseteq> route_Id ` (set (routes s) \<union> set (force_id req))"
    using sub by (rule image_mono)
  then have ids: "route_Id ` set ?next \<subseteq> route_Id ` set (routes s) \<union> {req_id req}"
    unfolding image_Un forced .
  have old: "route_Id ` set (routes s) \<inter> route_Id ` set (defaults s) = {}"
    using assms(1) unfolding disjoint_defaults_def .
  have "route_Id ` set ?next \<inter> route_Id ` set (defaults s) = {}"
    using ids old assms(3) by (rule disjoint_insert_one)
  then show ?thesis
    unfolding disjoint_defaults_def by simp
qed

lemma put_invariant:
  assumes "disjoint_defaults s"
  shows "disjoint_defaults (fst (put str s req))
         \<and> defaults (fst (put str s req)) = defaults s
         \<and> deletedIDs (snd (snd (put str s req))) = []"
proof (cases "length (req_routes req) = 1 \<and> req_id req \<notin> route_Id ` set (defaults s)")
  case True
  then have "put str s req =
      (s\<lparr>routes := fst (upsertRoutes str (routes s) (force_id req))\<rparr>, zero_response,
       zero_update\<lparr>upd_routes := snd (upsertRoutes str (routes s) (force_id req))\<rparr>)"
    by (simp add: put_eq)
  moreover have "disjoint_defaults (s\<lparr>routes := fst (upsertRoutes str (routes s) (force_id req))\<rparr>)"
    using assms True by (intro upsert_single_disjoint) simp_all
  ultimately show ?thesis by (simp add: zero_update_def)
next
  case False
  then have "fst (put str s req) = s \<and> snd (snd (put str s req)) = zero_update"
    by (auto simp: put_eq)
  then show ?thesis using assms by (simp add: zero_update_def)
qed

lemma patch_invariant:
  assumes "disjoint_defaults s"
  shows "disjoint_defaults (fst (patch str s req))
         \<and> defaults (fst (patch str s req)) = defaults s
         \<and> deletedIDs (snd (snd (patch str s req))) = []"
proof (cases "req_id req \<in> route_Id ` set (defaults s @ routes s) \<and> length (req_routes req) = 1
              \<and> req_id req \<notin> route_Id ` set (defaults s)")
  case True
  then have "patch str s req =
      (s\<lparr>routes := fst (upsertRoutes str (routes s) (force_id req))\<rparr>, zero_response,
       zero_update\<lparr>upd_routes := snd (upsertRoutes str (routes s) (force_id req))\<rparr>)"
    by (simp add: patch_eq del: set_append)
  moreover have "disjoint_defaults (s\<lparr>routes := fst (upsertRoutes str (routes s) (force_id req))\<rparr>)"
    using assms True by (intro upsert_single_disjoint) simp_all
  ultimately show ?thesis by (simp add: zero_update_def)
next
  case False
  then have "fst (patch str s req) = s \<and> snd (snd (patch str s req)) = zero_update"
    by (auto simp: patch_eq simp del: set_append)
  then show ?thesis using assms by (simp add: zero_update_def)
qed

lemma del_invariant:
  assumes "disjoint_defaults s"
  shows "disjoint_defaults (fst (del s req))
         \<and> defaults (fst (del s req)) = defaults s
         \<and> set (deletedIDs (snd (snd (del s req)))) \<inter> route_Id ` set (defaults s) = {}"
proof -
  have "route_Id ` set (id_scan (req_id req) (routes s)) \<subseteq> route_Id ` set (routes s)"
    using id_scan_subset [of "req_id req" "routes s"] by blast
  then have ids: "route_Id ` set (id_scan (req_id req) (routes s)) \<inter> route_Id ` set (defaults s) = {}"
    using assms unfolding disjoint_defaults_def by blast
  have "route_Id ` set (without_ids (routes s) (id_scan (req_id req) (routes s)))
      \<subseteq> route_Id ` set (routes s)"
    using without_ids_subset [of "routes s"] by blast
  then have "disjoint_defaults (s\<lparr>routes := without_ids (routes s) (id_scan (req_id req) (routes s))\<rparr>)"
    using assms by (simp add: disjoint_defaults_def) blast
  then show ?thesis
    using assms ids by (simp add: del_eq zero_update_def)
qed

lemma handleIndividual_invariant:
  assumes "disjoint_defaults s"
  shows "disjoint_defaults (fst (handleIndividual str s req))
         \<and> defaults (fst (handleIndividual str s req)) = defaults s
         \<and> set (deletedIDs (snd (snd (handleIndividual str s req)))) \<inter> route_Id ` set (defaults s) = {}"
proof -
  have p: "disjoint_defaults (fst (put str s req)) \<and> defaults (fst (put str s req)) = defaults s
      \<and> set (deletedIDs (snd (snd (put str s req)))) \<inter> route_Id ` set (defaults s) = {}"
    using put_invariant [OF assms, of str req] by simp
  have q: "disjoint_defaults (fst (patch str s req)) \<and> defaults (fst (patch str s req)) = defaults s
      \<and> set (deletedIDs (snd (snd (patch str s req)))) \<inter> route_Id ` set (defaults s) = {}"
    using patch_invariant [OF assms, of str req] by simp
  note d = del_invariant [OF assms, of req]
  have z: "disjoint_defaults (fst (s, x, zero_update)) \<and> defaults (fst (s, x, zero_update)) = defaults s
      \<and> set (deletedIDs (snd (snd (s, x, zero_update :: 'a updateMessage)))) \<inter> route_Id ` set (defaults s) = {}"
    for x :: "'a response"
    using assms by (simp add: zero_update_def)
  consider (get) "req_method req = ''HEAD'' \<or> req_method req = ''GET''"
    | (put) "req_method req = ''PUT'' \<or> req_method req = ''POST''"
    | (patch) "req_method req = ''PATCH''"
    | (del) "req_method req = ''DELETE''"
    | (other) "req_method req \<noteq> ''HEAD''" "req_method req \<noteq> ''GET''" "req_method req \<noteq> ''PUT''"
        "req_method req \<noteq> ''POST''" "req_method req \<noteq> ''PATCH''" "req_method req \<noteq> ''DELETE''"
    by blast
  then show ?thesis
  proof cases
    case get
    then have "handleIndividual str s req = (s, get s req, zero_update)"
      by (auto simp: handleIndividual_def)
    then show ?thesis by (simp only: z)
  next
    case put
    then have "handleIndividual str s req = put str s req"
      by (auto simp: handleIndividual_def)
    then show ?thesis by (simp only: p)
  next
    case patch
    then have "handleIndividual str s req = patch str s req"
      by (simp add: handleIndividual_def)
    then show ?thesis by (simp only: q)
  next
    case del
    then have "handleIndividual str s req = del s req"
      by (simp add: handleIndividual_def)
    then show ?thesis by (simp only: d)
  next
    case other
    then have "handleIndividual str s req = (s, zero_response, zero_update)"
      by (simp add: handleIndividual_def)
    then show ?thesis by (simp only: z)
  qed
qed

lemma handle_invariant:
  assumes "disjoint_defaults s"
  shows "disjoint_defaults (fst (handle str s req))
         \<and> defaults (fst (handle str s req)) = defaults s
         \<and> set (deletedIDs (snd (snd (handle str s req)))) \<inter> route_Id ` set (defaults s) = {}"
proof (cases "req_id req = ''''")
  case True
  then have "handle str s req = handleRoot str s req"
    by (simp add: handle_def)
  then show ?thesis by (simp only: handleRoot_invariant [OF assms])
next
  case False
  then have "handle str s req = handleIndividual str s req"
    by (simp add: handle_def)
  then show ?thesis by (simp only: handleIndividual_invariant [OF assms])
qed

subsection \<open>Along a schedule\<close>

lemma step_invariant:
  assumes "protects_defaults y" and "step str y e = Some (y', out)"
  shows "protects_defaults y' \<and> defaults (spec y') = defaults (spec y)
         \<and> (\<forall>rs ds er. out = LoadUpdateReturns rs ds er \<longrightarrow>
               set ds \<inter> route_Id ` set (defaults (spec y)) = {})"
proof (cases e)
  case (RecvRequest req)
  have inv: "disjoint_defaults (spec y)"
    and old: "set (deletedIDs (updateToSend y)) \<inter> route_Id ` set (defaults (spec y)) = {}"
    using assms(1) by (simp_all add: protects_defaults_def)
  note h = handle_invariant [OF inv, of str req]
  from assms(2) RecvRequest have run: "\<not> returned y"
    by (simp split: if_splits)
  obtain s' rsp update where hd: "handle str (spec y) req = (s', rsp, update)"
    by (cases "handle str (spec y) req") auto
  from h hd have s': "disjoint_defaults s'" "defaults s' = defaults (spec y)"
    and upd: "set (deletedIDs update) \<inter> route_Id ` set (defaults (spec y)) = {}"
    by simp_all
  from assms(2) RecvRequest run hd
  have y': "spec y' = s'"
    "updateToSend y' = update \<or> updateToSend y' = updateToSend y
       \<or> updateToSend y' = zero_update\<lparr>upd_err := Some errMissedUpdate\<rparr>"
    "out = Responded rsp"
    by (auto simp: Let_def split: if_splits)
  from y'(2) old upd s'(2) y'(1)
  have "set (deletedIDs (updateToSend y')) \<inter> route_Id ` set (defaults (spec y')) = {}"
    by (auto simp: zero_update_def)
  then show ?thesis
    using s' y' by (simp add: protects_defaults_def)
next
  case SendUpdate
  then show ?thesis
    using assms by (auto simp: protects_defaults_def LoadUpdate_def split: if_splits)
next
  case RecvGetAll
  then show ?thesis
    using assms by (auto simp: protects_defaults_def LoadAll_def split: if_splits)
next
  case RecvStop
  then show ?thesis
    using assms by (auto simp: protects_defaults_def split: if_splits)
next
  case CallLoadUpdate
  then show ?thesis
    using assms by (auto simp: protects_defaults_def)
next
  case CallClose
  then show ?thesis
    using assms by (auto simp: protects_defaults_def split: if_splits)
qed

lemma all_updates_Cons:
  assumes "\<forall>rs ds er. out = LoadUpdateReturns rs ds er \<longrightarrow> P ds"
    and "\<forall>rs ds er. LoadUpdateReturns rs ds er \<in> set outs \<longrightarrow> P ds"
  shows "\<forall>rs ds er. LoadUpdateReturns rs ds er \<in> set (out # outs) \<longrightarrow> P ds"
  using assms by (metis set_ConsD)

lemma exec_invariant:
  assumes "protects_defaults y" and "exec str y evs = (z, outs)"
  shows "protects_defaults z \<and> defaults (spec z) = defaults (spec y)
         \<and> (\<forall>rs ds er. LoadUpdateReturns rs ds er \<in> set outs \<longrightarrow>
               set ds \<inter> route_Id ` set (defaults (spec y)) = {})"
  using assms
proof (induction evs arbitrary: y z outs)
  case Nil
  then show ?case by simp
next
  case (Cons e evs)
  show ?case
  proof (cases "step str y e")
    case None
    with Cons.prems have "exec str y evs = (z, outs)" by simp
    then show ?thesis using Cons.IH Cons.prems(1) by blast
  next
    case (Some p)
    obtain y' out where p: "p = (y', out)" by (cases p) auto
    obtain z' outs' where rest': "exec str y' evs = (z', outs')"
      by (cases "exec str y' evs") auto
    with Cons.prems(2) Some p have rest: "exec str y' evs = (z, outs')" and outs: "outs = out # outs'"
      by simp_all
    note st = step_invariant [OF Cons.prems(1) Some [unfolded p]]
    from st have inv': "protects_defaults y'" and d: "defaults (spec y') = defaults (spec y)"
      by simp_all
    note ih = Cons.IH [OF inv' rest]
    from st have hd: "\<forall>rs ds er. out = LoadUpdateReturns rs ds er \<longrightarrow>
        set ds \<inter> route_Id ` set (defaults (spec y)) = {}"
      by simp
    from ih have tl: "\<forall>rs ds er. LoadUpdateReturns rs ds er \<in> set outs' \<longrightarrow>
        set ds \<inter> route_Id ` set (defaults (spec y)) = {}"
      by (simp add: d)
    have "\<forall>rs ds er. LoadUpdateReturns rs ds er \<in> set (out # outs') \<longrightarrow>
        set ds \<inter> route_Id ` set (defaults (spec y)) = {}"
      using hd tl by (rule all_updates_Cons)
    then show ?thesis
      using ih d unfolding outs by simp
  qed
qed

lemma New_invariant: "protects_defaults (New self dr)"
  by (simp add: New_def protects_defaults_def disjoint_defaults_def zero_update_def Let_def)

lemma id_scan_single:
  assumes "i \<in> route_Id ` set xs"
  shows "\<exists>r. id_scan i xs = [r] \<and> r \<in> set xs \<and> route_Id r = i"
  using assms by (induction xs) auto

lemma handle_individual: "req_id req \<noteq> '''' \<Longrightarrow> handle str s req = handleIndividual str s req"
  by (simp add: handle_def)

lemma disjoint_notin: "A \<inter> B = {} \<Longrightarrow> d \<in> B \<Longrightarrow> d \<notin> A"
  by blast

lemma default_id_not_in_routes:
  assumes "disjoint_defaults s" and "d \<in> route_Id ` set (defaults s)"
  shows "d \<notin> route_Id ` set (routes s)"
  using assms unfolding disjoint_defaults_def by (rule disjoint_notin)

lemma targeting_default_no_effect:
  assumes "disjoint_defaults s" and "req_id req \<in> route_Id ` set (defaults s)"
    and "req_method req \<in> {''PUT'', ''POST'', ''PATCH'', ''DELETE''}"
  shows "fst (handleIndividual str s req) = s
         \<and> snd (snd (handleIndividual str s req)) = zero_update"
proof -
  have absent: "req_id req \<notin> route_Id ` set (routes s)"
    using assms(1,2) by (rule default_id_not_in_routes)
  have p: "fst (put str s req) = s \<and> snd (snd (put str s req)) = zero_update"
    using assms(2) by (simp add: put_eq)
  have q: "fst (patch str s req) = s \<and> snd (snd (patch str s req)) = zero_update"
    using assms(2) by (simp add: patch_eq)
  have d: "fst (del s req) = s \<and> snd (snd (del s req)) = zero_update"
    using absent by (simp add: del_eq)
  from assms(3) consider "req_method req = ''PUT'' \<or> req_method req = ''POST''"
    | "req_method req = ''PATCH''" | "req_method req = ''DELETE''"
    by auto
  then show ?thesis
  proof cases
    case 1
    then have "handleIndividual str s req = put str s req"
      by (auto simp: handleIndividual_def)
    then show ?thesis by (simp only: p)
  next
    case 2
    then have "handleIndividual str s req = patch str s req"
      by (simp add: handleIndividual_def)
    then show ?thesis by (simp only: q)
  next
    case 3
    then have "handleIndividual str s req = del s req"
      by (simp add: handleIndividual_def)
    then show ?thesis by (simp only: d)
  qed
qed

lemma default_read:
  assumes "d \<in> route_Id ` set (defaults s)" and "req_id g = d"
  shows "\<exists>r \<in> set (defaults s). route_Id r = d
           \<and> r \<in> set (rsp_routes (getRoot s g))
           \<and> get s g = \<lparr>withContent = True, rsp_routes = [r], rsp_err = None\<rparr>"
proof -
  obtain r where r: "id_scan d (defaults s) = [r]" "r \<in> set (defaults s)" "route_Id r = d"
    using id_scan_single [OF assms(1)] by blast
  have "id_scan d (defaults s @ routes s) = [r]"
    using assms(1) r(1) by (simp add: id_scan_append)
  then have "get s g = \<lparr>withContent = True, rsp_routes = [r], rsp_err = None\<rparr>"
    using assms by (simp add: get_eq image_Un)
  moreover have "r \<in> set (rsp_routes (getRoot s g))"
    using r(2) by (simp add: getRoot_def)
  ultimately show ?thesis using r by blast
qed

lemmas eval_defs =
  New_def uniqueRoutes_def removeRoutes_def changedRoutes_def idsToRoutes_def routesToIDs_def
  replaceRoutes_def upsertRoutes_def handle_def handleRoot_def handleIndividual_def getRoot_def
  putRoot_def patchInRoot_def deleteFromRoot_def get_def put_def patch_def del_def force_id_def
  badRequestString_def hasData_def zero_update_def zero_response_def LoadAll_def LoadUpdate_def
  Let_def

text \<open>
  C4. Take any schedule of events from a new system and any id \<open>d\<close> of a default
  route. In the state reached, a PUT, POST, PATCH or DELETE on the individual route \<open>d\<close>
  returns the store as it was and an update without data. No update that
  \<^verbatim>\<open>LoadUpdate\<close> returned during the schedule names \<open>d\<close> as deleted, and neither does the
  update of any further request \<open>q\<close>. After any request \<open>q\<close>, a root Replace or a root
  Delete that names \<open>d\<close> among them, the default route of id \<open>d\<close> is in what reading
  the root returns and is what reading \<open>d\<close> returns.
\<close>

theorem defaults_protected:
  assumes "exec str (New self dr) evs = (y, outs)"
    and "d \<in> route_Id ` set (defaults (spec y))"
    and "req_id req = d"
    and "req_method req \<in> {''PUT'', ''POST'', ''PATCH'', ''DELETE''}"
    and "req_id g = d"
  shows "fst (handleIndividual str (spec y) req) = spec y
         \<and> \<not> hasData (snd (snd (handleIndividual str (spec y) req)))
         \<and> (d \<noteq> '''' \<longrightarrow> handle str (spec y) req = handleIndividual str (spec y) req)
         \<and> (\<forall>rs ds er. LoadUpdateReturns rs ds er \<in> set outs \<longrightarrow> d \<notin> set ds)
         \<and> d \<notin> set (deletedIDs (snd (snd (handle str (spec y) q))))
         \<and> (\<exists>r \<in> set (defaults (spec y)). route_Id r = d
              \<and> r \<in> set (rsp_routes (getRoot (fst (handle str (spec y) q)) g))
              \<and> get (fst (handle str (spec y) q)) g
                  = \<lparr>withContent = True, rsp_routes = [r], rsp_err = None\<rparr>)"
proof -
  note ex = exec_invariant [OF New_invariant assms(1)]
  from ex have inv: "disjoint_defaults (spec y)"
    by (simp add: protects_defaults_def)
  from ex have same: "defaults (spec y) = defaults (spec (New self dr))"
    by simp
  have target: "fst (handleIndividual str (spec y) req) = spec y
      \<and> snd (snd (handleIndividual str (spec y) req)) = zero_update"
    using inv assms(2,4) unfolding assms(3) [symmetric] by (rule targeting_default_no_effect)
  then have 1: "fst (handleIndividual str (spec y) req) = spec y"
    and 2: "\<not> hasData (snd (snd (handleIndividual str (spec y) req)))"
    by (simp_all add: zero_update_no_data)
  have 3: "d \<noteq> '''' \<longrightarrow> handle str (spec y) req = handleIndividual str (spec y) req"
    using assms(3) by (simp add: handle_individual)
  have 4: "\<forall>rs ds er. LoadUpdateReturns rs ds er \<in> set outs \<longrightarrow> d \<notin> set ds"
  proof (intro allI impI)
    fix rs ds er
    assume "LoadUpdateReturns rs ds er \<in> set outs"
    with ex have "set ds \<inter> route_Id ` set (defaults (spec (New self dr))) = {}"
      by blast
    then show "d \<notin> set ds"
      using assms(2) unfolding same by (rule disjoint_notin)
  qed
  note h = handle_invariant [OF inv, of str q]
  from h have "set (deletedIDs (snd (snd (handle str (spec y) q))))
      \<inter> route_Id ` set (defaults (spec y)) = {}"
    by simp
  then have 5: "d \<notin> set (deletedIDs (snd (snd (handle str (spec y) q))))"
    using assms(2) by (rule disjoint_notin)
  from h have keep: "defaults (fst (handle str (spec y) q)) = defaults (spec y)"
    by simp
  have 6: "\<exists>r \<in> set (defaults (spec y)). route_Id r = d
      \<and> r \<in> set (rsp_routes (getRoot (fst (handle str (spec y) q)) g))
      \<and> get (fst (handle str (spec y) q)) g = \<lparr>withContent = True, rsp_routes = [r], rsp_err = None\<rparr>"
    using default_read [of d "fst (handle str (spec y) q)" g] assms(2,5)
    unfolding keep by simp
  show ?thesis using 1 2 3 4 5 6 by (intro conjI)
qed

theorem defaults_protected_witness:
  "exec route_body (New [Rt ''__config'' ''A''] [])
      [RecvRequest (Req '''' ''PUT'' [Rt ''foo'' ''X''] []), CallLoadUpdate, SendUpdate,
       RecvRequest (Req '''' ''DELETE'' [] [''foo'', ''__config'']), CallLoadUpdate, SendUpdate]
     = (Sys [Rt ''__config'' ''A''] [] False (Upd [] [''foo''] None) 0,
        [Responded \<lparr>withContent = False, rsp_routes = [], rsp_err = None\<rparr>, LoadUpdateBlocks,
         LoadUpdateReturns [Rt ''foo'' ''X''] [] None,
         Responded \<lparr>withContent = False, rsp_routes = [], rsp_err = None\<rparr>, LoadUpdateBlocks,
         LoadUpdateReturns [] [''foo''] None])
   \<and> ''__config'' \<in> route_Id ` set (defaults (spec (Sys [Rt ''__config'' ''A''] [] False (Upd [] [''foo''] None) 0)))
   \<and> req_method (Req ''__config'' ''DELETE'' [] []) \<in> {''PUT'', ''POST'', ''PATCH'', ''DELETE''}
   \<and> fst (handleIndividual route_body \<lparr>defaults = [Rt ''__config'' ''A''], routes = []\<rparr>
          (Req ''__config'' ''DELETE'' [] []))
       = \<lparr>defaults = [Rt ''__config'' ''A''], routes = []\<rparr>
   \<and> ''__config'' \<notin> set (deletedIDs (snd (snd (handle route_body
          \<lparr>defaults = [Rt ''__config'' ''A''], routes = []\<rparr>
          (Req '''' ''PUT'' [Rt ''__config'' ''Z''] []))))) 
   \<and> get (fst (handle route_body \<lparr>defaults = [Rt ''__config'' ''A''], routes = []\<rparr>
          (Req '''' ''PUT'' [Rt ''__config'' ''Z''] []))) (Req ''__config'' ''GET'' [] [])
       = \<lparr>withContent = True, rsp_routes = [Rt ''__config'' ''A''], rsp_err = None\<rparr>"
proof -
  have e: "exec route_body (New [Rt ''__config'' ''A''] [])
      [RecvRequest (Req '''' ''PUT'' [Rt ''foo'' ''X''] []), CallLoadUpdate, SendUpdate,
       RecvRequest (Req '''' ''DELETE'' [] [''foo'', ''__config'']), CallLoadUpdate, SendUpdate]
     = (Sys [Rt ''__config'' ''A''] [] False (Upd [] [''foo''] None) 0,
        [Responded \<lparr>withContent = False, rsp_routes = [], rsp_err = None\<rparr>, LoadUpdateBlocks,
         LoadUpdateReturns [Rt ''foo'' ''X''] [] None,
         Responded \<lparr>withContent = False, rsp_routes = [], rsp_err = None\<rparr>, LoadUpdateBlocks,
         LoadUpdateReturns [] [''foo''] None])"
    by (simp add: eval_defs)
  show ?thesis
    using e defaults_protected [OF e, of "''__config''" "Req ''__config'' ''DELETE'' [] []"
        "Req ''__config'' ''GET'' [] []" "Req '''' ''PUT'' [Rt ''__config'' ''Z''] []"]
    by simp
qed

text \<open>
  C8. In any state reached from a new system, reading the individual route of a
  default id \<open>d\<close> succeeds and returns the default route, while deleting it returns
  "not found" and changes nothing: \<^verbatim>\<open>del\<close> looks the id up in the working set only. In
  any store at all, an individual DELETE answers "not found" exactly when the working
  set has no route of the target id, and it has no other error.
\<close>

theorem default_found_by_get_not_by_del:
  assumes "exec str (New self dr) evs = (y, outs)"
    and "d \<in> route_Id ` set (defaults (spec y))"
    and "req_id g = d" and "req_method g = ''GET''"
    and "req_id x = d" and "req_method x = ''DELETE''"
    and "req_method q = ''DELETE''"
  shows "(\<exists>r \<in> set (defaults (spec y)). route_Id r = d
            \<and> handleIndividual str (spec y) g
                = (spec y, \<lparr>withContent = True, rsp_routes = [r], rsp_err = None\<rparr>, zero_update))
         \<and> handleIndividual str (spec y) x
             = (spec y, zero_response\<lparr>rsp_err := Some errNotFound\<rparr>, zero_update)
         \<and> (d \<noteq> '''' \<longrightarrow> handle str (spec y) g = handleIndividual str (spec y) g
                         \<and> handle str (spec y) x = handleIndividual str (spec y) x)
         \<and> (rsp_err (fst (snd (handleIndividual str s q))) = Some errNotFound
              \<longleftrightarrow> req_id q \<notin> route_Id ` set (routes s))
         \<and> (rsp_err (fst (snd (handleIndividual str s q))) = None
              \<longleftrightarrow> req_id q \<in> route_Id ` set (routes s))"
proof -
  note ex = exec_invariant [OF New_invariant assms(1)]
  from ex have inv: "disjoint_defaults (spec y)"
    by (simp add: protects_defaults_def)
  have absent: "d \<notin> route_Id ` set (routes (spec y))"
    using inv assms(2) by (rule default_id_not_in_routes)
  have hg: "handleIndividual str (spec y) g = (spec y, get (spec y) g, zero_update)"
    using assms(4) by (simp add: handleIndividual_def)
  have 1: "\<exists>r \<in> set (defaults (spec y)). route_Id r = d
      \<and> handleIndividual str (spec y) g
          = (spec y, \<lparr>withContent = True, rsp_routes = [r], rsp_err = None\<rparr>, zero_update)"
    using default_read [OF assms(2,3)] unfolding hg by blast
  have hx: "handleIndividual str (spec y) x = del (spec y) x"
    using assms(6) by (simp add: handleIndividual_def)
  have 2: "handleIndividual str (spec y) x
      = (spec y, zero_response\<lparr>rsp_err := Some errNotFound\<rparr>, zero_update)"
    unfolding hx using absent assms(5) by (simp add: del_eq)
  have 3: "d \<noteq> '''' \<longrightarrow> handle str (spec y) g = handleIndividual str (spec y) g
      \<and> handle str (spec y) x = handleIndividual str (spec y) x"
    using assms(3,5) by (simp add: handle_individual)
  have hq: "handleIndividual str s q = del s q"
    using assms(7) by (simp add: handleIndividual_def)
  have 4: "rsp_err (fst (snd (handleIndividual str s q))) = Some errNotFound
      \<longleftrightarrow> req_id q \<notin> route_Id ` set (routes s)"
    unfolding hq by (simp add: del_eq zero_response_def)
  have 5: "rsp_err (fst (snd (handleIndividual str s q))) = None
      \<longleftrightarrow> req_id q \<in> route_Id ` set (routes s)"
    unfolding hq by (simp add: del_eq zero_response_def)
  show ?thesis using 1 2 3 4 5 by (intro conjI)
qed

theorem default_found_by_get_not_by_del_witness:
  "exec route_body (New [Rt ''__config'' ''A''] []) [RecvRequest (Req '''' ''PUT'' [Rt ''foo'' ''X''] [])]
     = (Sys [Rt ''__config'' ''A''] [Rt ''foo'' ''X''] True (Upd [Rt ''foo'' ''X''] [] None) 0,
        [Responded \<lparr>withContent = False, rsp_routes = [], rsp_err = None\<rparr>])
   \<and> ''__config'' \<in> route_Id ` set [Rt ''__config'' ''A'']
   \<and> req_method (Req ''__config'' ''GET'' [] []) = ''GET''
   \<and> req_method (Req ''__config'' ''DELETE'' [] []) = ''DELETE''
   \<and> handleIndividual route_body \<lparr>defaults = [Rt ''__config'' ''A''], routes = [Rt ''foo'' ''X'']\<rparr>
        (Req ''__config'' ''GET'' [] [])
       = (\<lparr>defaults = [Rt ''__config'' ''A''], routes = [Rt ''foo'' ''X'']\<rparr>,
          \<lparr>withContent = True, rsp_routes = [Rt ''__config'' ''A''], rsp_err = None\<rparr>,
          Upd [] [] None)
   \<and> handleIndividual route_body \<lparr>defaults = [Rt ''__config'' ''A''], routes = [Rt ''foo'' ''X'']\<rparr>
        (Req ''__config'' ''DELETE'' [] [])
       = (\<lparr>defaults = [Rt ''__config'' ''A''], routes = [Rt ''foo'' ''X'']\<rparr>,
          \<lparr>withContent = False, rsp_routes = [], rsp_err = Some errNotFound\<rparr>,
          Upd [] [] None)
   \<and> rsp_err (fst (snd (handleIndividual route_body
          \<lparr>defaults = [Rt ''__config'' ''A''], routes = [Rt ''foo'' ''X'']\<rparr>
          (Req ''foo'' ''DELETE'' [] [])))) = None"
proof -
  have e: "exec route_body (New [Rt ''__config'' ''A''] [])
      [RecvRequest (Req '''' ''PUT'' [Rt ''foo'' ''X''] [])]
     = (Sys [Rt ''__config'' ''A''] [Rt ''foo'' ''X''] True (Upd [Rt ''foo'' ''X''] [] None) 0,
        [Responded \<lparr>withContent = False, rsp_routes = [], rsp_err = None\<rparr>])"
    by (simp add: eval_defs)
  show ?thesis
    using e default_found_by_get_not_by_del [OF e, of "''__config''" "Req ''__config'' ''GET'' [] []"
        "Req ''__config'' ''DELETE'' [] []" "Req ''foo'' ''DELETE'' [] []"
        "\<lparr>defaults = [Rt ''__config'' ''A''], routes = [Rt ''foo'' ''X'']\<rparr>"]
    by (simp add: zero_update_def zero_response_def)
qed

section \<open>The update relay\<close>

lemma handleRoot_update_no_err: "upd_err (snd (snd (handleRoot str s req))) = None"
  by (simp add: handleRoot_def putRoot_def patchInRoot_def deleteFromRoot_def Let_def split_beta
      zero_update_def)

lemma handleIndividual_update_no_err: "upd_err (snd (snd (handleIndividual str s req))) = None"
  by (simp add: handleIndividual_def put_eq patch_eq del_eq zero_update_def del: set_append)

lemma handle_update_no_err: "upd_err (snd (snd (handle str s req))) = None"
  by (simp add: handle_def handleRoot_update_no_err handleIndividual_update_no_err)

lemma data_means_success:
  assumes "hasData (snd (snd (handle str s req)))"
  shows "rsp_err (fst (snd (handle str s req))) = None"
proof (rule ccontr)
  assume "rsp_err (fst (snd (handle str s req))) \<noteq> None"
  then have "snd (snd (handle str s req)) = zero_update"
    using handle_error [of str s req] by simp
  with assms show False
    by (simp add: zero_update_no_data)
qed

lemma step_request:
  assumes "\<not> returned y" and "handle str (spec y) req = (s', rsp, update)"
  shows "step str y (RecvRequest req) =
     Some (if hasData update
           then (if \<not> updateRelay y
                 then y\<lparr>spec := s', updateRelay := True, updateToSend := update\<rparr>
                 else y\<lparr>spec := s',
                        updateToSend := \<lparr>upd_routes = [], deletedIDs = [],
                                         upd_err = Some errMissedUpdate\<rparr>\<rparr>)
           else y\<lparr>spec := s'\<rparr>, Responded rsp)"
  using assms by (simp add: Let_def zero_update_def)

text \<open>Once the marker is in place, only the send takes it away.\<close>

lemma missed_kept_by_step:
  assumes "updateRelay y"
    and "updateToSend y = \<lparr>upd_routes = [], deletedIDs = [], upd_err = Some errMissedUpdate\<rparr>"
    and "step str y e = Some (y', out)" and "e \<noteq> SendUpdate"
  shows "updateRelay y'
         \<and> updateToSend y' = \<lparr>upd_routes = [], deletedIDs = [], upd_err = Some errMissedUpdate\<rparr>"
proof (cases e)
  case (RecvRequest req)
  obtain s' rsp update where h: "handle str (spec y) req = (s', rsp, update)"
    by (cases "handle str (spec y) req") auto
  from assms(3) RecvRequest have run: "\<not> returned y"
    by (simp split: if_splits)
  from assms(3) have "y' = (if hasData update
           then y\<lparr>spec := s',
                  updateToSend := \<lparr>upd_routes = [], deletedIDs = [],
                                   upd_err = Some errMissedUpdate\<rparr>\<rparr>
           else y\<lparr>spec := s'\<rparr>)"
    unfolding RecvRequest step_request [OF run h] using assms(1) by (auto split: if_splits)
  then show ?thesis using assms(1,2) by simp
qed (use assms in \<open>auto split: if_splits\<close>)

lemma missed_kept_by_exec:
  assumes "updateRelay y"
    and "updateToSend y = \<lparr>upd_routes = [], deletedIDs = [], upd_err = Some errMissedUpdate\<rparr>"
    and "SendUpdate \<notin> set evs"
  shows "updateRelay (fst (exec str y evs))
         \<and> updateToSend (fst (exec str y evs))
             = \<lparr>upd_routes = [], deletedIDs = [], upd_err = Some errMissedUpdate\<rparr>"
  using assms
proof (induction evs arbitrary: y)
  case Nil
  then show ?case by simp
next
  case (Cons e evs)
  from Cons.prems(3) have e: "e \<noteq> SendUpdate" and rest: "SendUpdate \<notin> set evs"
    by auto
  show ?case
  proof (cases "step str y e")
    case None
    then show ?thesis using Cons.IH [OF Cons.prems(1,2) rest] by simp
  next
    case (Some p)
    obtain y' out where p: "p = (y', out)" by (cases p) auto
    note k = missed_kept_by_step [OF Cons.prems(1,2) Some [unfolded p] e]
    from k have "updateRelay y'"
      and "updateToSend y' = \<lparr>upd_routes = [], deletedIDs = [], upd_err = Some errMissedUpdate\<rparr>"
      by simp_all
    from Cons.IH [OF this rest] show ?thesis
      using Some p by (simp add: split_beta)
  qed
qed

text \<open>
  C1. The run loop holds an update that no receiver has taken (\<open>updateRelay\<close> is set)
  and handles a request whose update has data. The step answers the request with the
  handler's response, which carries no error, commits the handler's store, and puts the
  "missed update" marker in place of the held update. Whatever happens next short of a
  send, the marker stays; so the next send to a waiting \<^verbatim>\<open>LoadUpdate\<close> returns the error
  \<^verbatim>\<open>errMissedUpdate\<close> with no routes and no deleted ids, which is not the update of the
  request.
\<close>

theorem second_commit_delivers_missed:
  assumes "\<not> returned y" and "updateRelay y"
    and "handle str (spec y) req = (s', rsp, update)" and "hasData update"
    and "SendUpdate \<notin> set evs"
    and "z = fst (exec str (y\<lparr>spec := s',
                  updateToSend := \<lparr>upd_routes = [], deletedIDs = [],
                                   upd_err = Some errMissedUpdate\<rparr>\<rparr>) evs)"
  shows "step str y (RecvRequest req)
           = Some (y\<lparr>spec := s',
                     updateToSend := \<lparr>upd_routes = [], deletedIDs = [],
                                      upd_err = Some errMissedUpdate\<rparr>\<rparr>, Responded rsp)
         \<and> rsp_err rsp = None
         \<and> updateRelay z
         \<and> updateToSend z = \<lparr>upd_routes = [], deletedIDs = [], upd_err = Some errMissedUpdate\<rparr>
         \<and> (\<not> returned z \<and> 0 < receivers z \<longrightarrow>
               step str z SendUpdate
                 = Some (z\<lparr>updateRelay := False, receivers := receivers z - 1\<rparr>,
                         LoadUpdateReturns [] [] (Some errMissedUpdate)))
         \<and> LoadUpdate update \<noteq> LoadUpdateReturns [] [] (Some errMissedUpdate)"
proof -
  let ?m = "\<lparr>upd_routes = [], deletedIDs = [], upd_err = Some errMissedUpdate\<rparr> :: 'a updateMessage"
  have 1: "step str y (RecvRequest req) = Some (y\<lparr>spec := s', updateToSend := ?m\<rparr>, Responded rsp)"
    unfolding step_request [OF assms(1,3)] using assms(2,4) by simp
  have 2: "rsp_err rsp = None"
    using data_means_success [of str "spec y" req] assms(3,4) by simp
  have "updateRelay (y\<lparr>spec := s', updateToSend := ?m\<rparr>)"
    and "updateToSend (y\<lparr>spec := s', updateToSend := ?m\<rparr>) = ?m"
    using assms(2) by simp_all
  then have kept: "updateRelay z \<and> updateToSend z = ?m"
    unfolding assms(6) using assms(5) by (rule missed_kept_by_exec)
  then have 3: "\<not> returned z \<and> 0 < receivers z \<longrightarrow>
      step str z SendUpdate
        = Some (z\<lparr>updateRelay := False, receivers := receivers z - 1\<rparr>,
                LoadUpdateReturns [] [] (Some errMissedUpdate))"
    by (simp add: LoadUpdate_def)
  have "upd_err update = None"
    using handle_update_no_err [of str "spec y" req] assms(3) by simp
  then have 4: "LoadUpdate update \<noteq> LoadUpdateReturns [] [] (Some errMissedUpdate)"
    by (simp add: LoadUpdate_def)
  show ?thesis using 1 2 kept 3 4 by (intro conjI) simp_all
qed

theorem second_commit_delivers_missed_witness:
  "\<not> returned (Sys [Rt ''__config'' ''A''] [Rt ''foo'' ''X''] True (Upd [Rt ''foo'' ''X''] [] None) 0)
   \<and> updateRelay (Sys [Rt ''__config'' ''A''] [Rt ''foo'' ''X''] True (Upd [Rt ''foo'' ''X''] [] None) 0)
   \<and> handle route_body \<lparr>defaults = [Rt ''__config'' ''A''], routes = [Rt ''foo'' ''X'']\<rparr>
        (Req '''' ''PUT'' [Rt ''bar'' ''Y''] [])
       = (\<lparr>defaults = [Rt ''__config'' ''A''], routes = [Rt ''bar'' ''Y'']\<rparr>,
          \<lparr>withContent = False, rsp_routes = [], rsp_err = None\<rparr>,
          Upd [Rt ''bar'' ''Y''] [''foo''] None)
   \<and> hasData (Upd [Rt ''bar'' ''Y''] [''foo''] None)
   \<and> SendUpdate \<notin> set [RecvGetAll, CallLoadUpdate :: string event]
   \<and> step route_body (Sys [Rt ''__config'' ''A''] [Rt ''foo'' ''X''] True (Upd [Rt ''foo'' ''X''] [] None) 0)
        (RecvRequest (Req '''' ''PUT'' [Rt ''bar'' ''Y''] []))
       = Some (Sys [Rt ''__config'' ''A''] [Rt ''bar'' ''Y''] True (Upd [] [] (Some errMissedUpdate)) 0,
               Responded \<lparr>withContent = False, rsp_routes = [], rsp_err = None\<rparr>)
   \<and> step route_body (Sys [Rt ''__config'' ''A''] [Rt ''bar'' ''Y''] True (Upd [] [] (Some errMissedUpdate)) 1)
        SendUpdate
       = Some (Sys [Rt ''__config'' ''A''] [Rt ''bar'' ''Y''] False (Upd [] [] (Some errMissedUpdate)) 0,
               LoadUpdateReturns [] [] (Some errMissedUpdate))"
proof -
  have h: "handle route_body \<lparr>defaults = [Rt ''__config'' ''A''], routes = [Rt ''foo'' ''X'']\<rparr>
        (Req '''' ''PUT'' [Rt ''bar'' ''Y''] [])
       = (\<lparr>defaults = [Rt ''__config'' ''A''], routes = [Rt ''bar'' ''Y'']\<rparr>,
          \<lparr>withContent = False, rsp_routes = [], rsp_err = None\<rparr>,
          Upd [Rt ''bar'' ''Y''] [''foo''] None)"
    by (simp add: eval_defs)
  show ?thesis
    using h second_commit_delivers_missed
      [of "Sys [Rt ''__config'' ''A''] [Rt ''foo'' ''X''] True (Upd [Rt ''foo'' ''X''] [] None) 0"
          route_body "Req '''' ''PUT'' [Rt ''bar'' ''Y''] []"
          "\<lparr>defaults = [Rt ''__config'' ''A''], routes = [Rt ''bar'' ''Y'']\<rparr>"
          "\<lparr>withContent = False, rsp_routes = [], rsp_err = None\<rparr>"
          "Upd [Rt ''bar'' ''Y''] [''foo''] None"
          "[RecvGetAll, CallLoadUpdate]"
          "Sys [Rt ''__config'' ''A''] [Rt ''bar'' ''Y''] True (Upd [] [] (Some errMissedUpdate)) 1"]
    by (simp add: hasData_def LoadAll_def LoadUpdate_def zero_update_def)
qed

text \<open>
  C10. The life of the pending update in a running loop, for a request whose handler
  returns the store \<open>s'\<close>, the response \<open>rsp\<close> and the update \<open>update\<close>. With no
  update pending, an update with data becomes the pending one. With one pending, be it
  an update or the marker, an update with data leaves the marker pending. An update
  without data changes nothing of the relay. A send needs a pending update and a
  receiver: it hands over what is pending and leaves nothing pending, and with nothing
  pending no send happens. After a send, the update of the next request is the one the
  next receiver gets. No other event touches the relay.
\<close>

theorem relay_lifecycle:
  assumes "\<not> returned y" and "handle str (spec y) req = (s', rsp, update)"
  shows "(hasData update \<and> \<not> updateRelay y \<longrightarrow>
            step str y (RecvRequest req)
              = Some (y\<lparr>spec := s', updateRelay := True, updateToSend := update\<rparr>, Responded rsp))
         \<and> (hasData update \<and> updateRelay y \<longrightarrow>
            step str y (RecvRequest req)
              = Some (y\<lparr>spec := s',
                        updateToSend := \<lparr>upd_routes = [], deletedIDs = [],
                                         upd_err = Some errMissedUpdate\<rparr>\<rparr>, Responded rsp))
         \<and> (\<not> hasData update \<longrightarrow>
            step str y (RecvRequest req) = Some (y\<lparr>spec := s'\<rparr>, Responded rsp))
         \<and> (updateRelay y \<and> 0 < receivers y \<longrightarrow>
            step str y SendUpdate
              = Some (y\<lparr>updateRelay := False, receivers := receivers y - 1\<rparr>,
                      LoadUpdate (updateToSend y)))
         \<and> (\<not> updateRelay y \<longrightarrow> step str y SendUpdate = None)
         \<and> (updateRelay y \<and> 0 < receivers y \<and> hasData update \<longrightarrow>
            snd (exec str y [SendUpdate, RecvRequest req, CallLoadUpdate, SendUpdate])
              = [LoadUpdate (updateToSend y), Responded rsp, LoadUpdateBlocks, LoadUpdate update])
         \<and> (e \<noteq> SendUpdate \<and> (\<forall>r. e \<noteq> RecvRequest r) \<and> step str y e = Some (y', out) \<longrightarrow>
            updateRelay y' = updateRelay y \<and> updateToSend y' = updateToSend y)"
proof -
  note rq = step_request [OF assms]
  have 1: "hasData update \<and> \<not> updateRelay y \<longrightarrow>
      step str y (RecvRequest req)
        = Some (y\<lparr>spec := s', updateRelay := True, updateToSend := update\<rparr>, Responded rsp)"
    unfolding rq by simp
  have 2: "hasData update \<and> updateRelay y \<longrightarrow>
      step str y (RecvRequest req)
        = Some (y\<lparr>spec := s',
                  updateToSend := \<lparr>upd_routes = [], deletedIDs = [],
                                   upd_err = Some errMissedUpdate\<rparr>\<rparr>, Responded rsp)"
    unfolding rq by simp
  have 3: "\<not> hasData update \<longrightarrow>
      step str y (RecvRequest req) = Some (y\<lparr>spec := s'\<rparr>, Responded rsp)"
    unfolding rq by simp
  have 4: "updateRelay y \<and> 0 < receivers y \<longrightarrow>
      step str y SendUpdate
        = Some (y\<lparr>updateRelay := False, receivers := receivers y - 1\<rparr>, LoadUpdate (updateToSend y))"
    using assms(1) by simp
  have 5: "\<not> updateRelay y \<longrightarrow> step str y SendUpdate = None"
    by simp
  have 6: "updateRelay y \<and> 0 < receivers y \<and> hasData update \<longrightarrow>
      snd (exec str y [SendUpdate, RecvRequest req, CallLoadUpdate, SendUpdate])
        = [LoadUpdate (updateToSend y), Responded rsp, LoadUpdateBlocks, LoadUpdate update]"
  proof (intro impI)
    assume a: "updateRelay y \<and> 0 < receivers y \<and> hasData update"
    let ?y1 = "y\<lparr>updateRelay := False, receivers := receivers y - 1\<rparr>"
    let ?y2 = "?y1\<lparr>spec := s', updateRelay := True, updateToSend := update\<rparr>"
    let ?y3 = "?y2\<lparr>receivers := receivers ?y2 + 1\<rparr>"
    have s1: "step str y SendUpdate = Some (?y1, LoadUpdate (updateToSend y))"
      using a assms(1) by simp
    have "\<not> returned ?y1" and "handle str (spec ?y1) req = (s', rsp, update)"
      using assms by simp_all
    from step_request [OF this] a
    have s2: "step str ?y1 (RecvRequest req) = Some (?y2, Responded rsp)"
      by simp
    have s3: "step str ?y2 CallLoadUpdate = Some (?y3, LoadUpdateBlocks)"
      by simp
    have s4: "step str ?y3 SendUpdate
        = Some (?y3\<lparr>updateRelay := False, receivers := receivers ?y3 - 1\<rparr>, LoadUpdate update)"
      using assms(1) by simp
    show "snd (exec str y [SendUpdate, RecvRequest req, CallLoadUpdate, SendUpdate])
        = [LoadUpdate (updateToSend y), Responded rsp, LoadUpdateBlocks, LoadUpdate update]"
      by (simp only: exec.simps s1 s2 s3 s4 option.case prod.case Let_def snd_conv)
  qed
  have 7: "e \<noteq> SendUpdate \<and> (\<forall>r. e \<noteq> RecvRequest r) \<and> step str y e = Some (y', out) \<longrightarrow>
      updateRelay y' = updateRelay y \<and> updateToSend y' = updateToSend y"
    by (cases e) (auto split: if_splits)
  show ?thesis using 1 2 3 4 5 6 7 by (intro conjI)
qed

theorem relay_lifecycle_witness:
  "\<not> returned (Sys [Rt ''__config'' ''A''] [Rt ''foo'' ''X''] True (Upd [Rt ''foo'' ''X''] [] None) 1)
   \<and> handle route_body \<lparr>defaults = [Rt ''__config'' ''A''], routes = [Rt ''foo'' ''X'']\<rparr>
        (Req '''' ''PUT'' [Rt ''bar'' ''Y''] [])
       = (\<lparr>defaults = [Rt ''__config'' ''A''], routes = [Rt ''bar'' ''Y'']\<rparr>,
          \<lparr>withContent = False, rsp_routes = [], rsp_err = None\<rparr>,
          Upd [Rt ''bar'' ''Y''] [''foo''] None)
   \<and> hasData (Upd [Rt ''bar'' ''Y''] [''foo''] None)
   \<and> step route_body (Sys [Rt ''__config'' ''A''] [Rt ''foo'' ''X''] True (Upd [Rt ''foo'' ''X''] [] None) 1)
        (RecvRequest (Req '''' ''PUT'' [Rt ''bar'' ''Y''] []))
       = Some (Sys [Rt ''__config'' ''A''] [Rt ''bar'' ''Y''] True (Upd [] [] (Some errMissedUpdate)) 1,
               Responded \<lparr>withContent = False, rsp_routes = [], rsp_err = None\<rparr>)
   \<and> step route_body (Sys [Rt ''__config'' ''A''] [Rt ''foo'' ''X''] True (Upd [Rt ''foo'' ''X''] [] None) 1)
        SendUpdate
       = Some (Sys [Rt ''__config'' ''A''] [Rt ''foo'' ''X''] False (Upd [Rt ''foo'' ''X''] [] None) 0,
               LoadUpdateReturns [Rt ''foo'' ''X''] [] None)
   \<and> snd (exec route_body
          (Sys [Rt ''__config'' ''A''] [Rt ''foo'' ''X''] True (Upd [Rt ''foo'' ''X''] [] None) 1)
          [SendUpdate, RecvRequest (Req '''' ''PUT'' [Rt ''bar'' ''Y''] []), CallLoadUpdate, SendUpdate])
       = [LoadUpdateReturns [Rt ''foo'' ''X''] [] None,
          Responded \<lparr>withContent = False, rsp_routes = [], rsp_err = None\<rparr>,
          LoadUpdateBlocks,
          LoadUpdateReturns [Rt ''bar'' ''Y''] [''foo''] None]
   \<and> (RecvGetAll :: string event) \<noteq> SendUpdate
   \<and> step route_body (Sys [Rt ''__config'' ''A''] [Rt ''foo'' ''X''] True (Upd [Rt ''foo'' ''X''] [] None) 1)
        RecvGetAll
       = Some (Sys [Rt ''__config'' ''A''] [Rt ''foo'' ''X''] True (Upd [Rt ''foo'' ''X''] [] None) 1,
               LoadAllReturns [Rt ''__config'' ''A'', Rt ''foo'' ''X''] None)"
proof -
  have h: "handle route_body \<lparr>defaults = [Rt ''__config'' ''A''], routes = [Rt ''foo'' ''X'']\<rparr>
        (Req '''' ''PUT'' [Rt ''bar'' ''Y''] [])
       = (\<lparr>defaults = [Rt ''__config'' ''A''], routes = [Rt ''bar'' ''Y'']\<rparr>,
          \<lparr>withContent = False, rsp_routes = [], rsp_err = None\<rparr>,
          Upd [Rt ''bar'' ''Y''] [''foo''] None)"
    by (simp add: eval_defs)
  have g: "step route_body (Sys [Rt ''__config'' ''A''] [Rt ''foo'' ''X''] True (Upd [Rt ''foo'' ''X''] [] None) 1)
        RecvGetAll
       = Some (Sys [Rt ''__config'' ''A''] [Rt ''foo'' ''X''] True (Upd [Rt ''foo'' ''X''] [] None) 1,
               LoadAllReturns [Rt ''__config'' ''A'', Rt ''foo'' ''X''] None)"
    by (simp add: LoadAll_def zero_update_def)
  show ?thesis
    using h g relay_lifecycle
      [of "Sys [Rt ''__config'' ''A''] [Rt ''foo'' ''X''] True (Upd [Rt ''foo'' ''X''] [] None) 1"
          route_body "Req '''' ''PUT'' [Rt ''bar'' ''Y''] []"
          "\<lparr>defaults = [Rt ''__config'' ''A''], routes = [Rt ''bar'' ''Y'']\<rparr>"
          "\<lparr>withContent = False, rsp_routes = [], rsp_err = None\<rparr>"
          "Upd [Rt ''bar'' ''Y''] [''foo''] None"
          RecvGetAll
          "Sys [Rt ''__config'' ''A''] [Rt ''foo'' ''X''] True (Upd [Rt ''foo'' ''X''] [] None) 1"
          "LoadAllReturns [Rt ''__config'' ''A'', Rt ''foo'' ''X''] None"]
    by (simp add: hasData_def LoadUpdate_def)
qed

section \<open>Snapshots and shutdown\<close>

text \<open>
  C9, as the code has it. \<^verbatim>\<open>LoadAll\<close> is served while the loop runs. The loop replies
  with the working set, and \<^verbatim>\<open>LoadAll\<close> returns the default routes followed by that
  working set, with no error. The step leaves the state as it is, the relay variable and
  the update to send included, so the next send delivers what it would have delivered
  without the snapshot.
\<close>

theorem LoadAll_returns_defaults_then_routes:
  assumes "\<not> returned y"
  shows "step str y RecvGetAll
           = Some (y, LoadAllReturns (defaults (spec y) @ routes (spec y)) None)
         \<and> step str (fst (the (step str y RecvGetAll))) SendUpdate = step str y SendUpdate"
  using assms by (simp add: LoadAll_def zero_update_def)

theorem LoadAll_returns_defaults_then_routes_witness:
  "\<not> returned (Sys [Rt ''__config'' ''A''] [Rt ''foo'' ''X''] True (Upd [Rt ''foo'' ''X''] [] None) 1)
   \<and> step route_body (Sys [Rt ''__config'' ''A''] [Rt ''foo'' ''X''] True (Upd [Rt ''foo'' ''X''] [] None) 1)
        RecvGetAll
       = Some (Sys [Rt ''__config'' ''A''] [Rt ''foo'' ''X''] True (Upd [Rt ''foo'' ''X''] [] None) 1,
               LoadAllReturns [Rt ''__config'' ''A'', Rt ''foo'' ''X''] None)"
  using LoadAll_returns_defaults_then_routes
    [of "Sys [Rt ''__config'' ''A''] [Rt ''foo'' ''X''] True (Upd [Rt ''foo'' ''X''] [] None) 1"
        route_body]
  by simp

text \<open>
  C9 as stated says that \<^verbatim>\<open>LoadAll\<close> returns the working set. With the default route
  \<^verbatim>\<open>__config\<close> and the working set holding \<^verbatim>\<open>foo\<close>, it returns both routes, which is not
  the working set.
\<close>

theorem LoadAll_working_set_only_counterexample:
  "step route_body (Sys [Rt ''__config'' ''A''] [Rt ''foo'' ''X''] False (Upd [] [] None) 0) RecvGetAll
     = Some (Sys [Rt ''__config'' ''A''] [Rt ''foo'' ''X''] False (Upd [] [] None) 0,
             LoadAllReturns [Rt ''__config'' ''A'', Rt ''foo'' ''X''] None)
   \<and> routes (spec (Sys [Rt ''__config'' ''A''] [Rt ''foo'' ''X''] False (Upd [] [] None) 0))
       = [Rt ''foo'' ''X'']
   \<and> step route_body (Sys [Rt ''__config'' ''A''] [Rt ''foo'' ''X''] False (Upd [] [] None) 0) RecvGetAll
     \<noteq> Some (Sys [Rt ''__config'' ''A''] [Rt ''foo'' ''X''] False (Upd [] [] None) 0,
             LoadAllReturns
               (routes (spec (Sys [Rt ''__config'' ''A''] [Rt ''foo'' ''X''] False (Upd [] [] None) 0)))
               None)"
  by (simp add: LoadAll_def zero_update_def)

lemma step_after_return:
  assumes "returned y" and "step str y e = Some (y', out)"
  shows "spec y' = spec y \<and> updateRelay y' = updateRelay y \<and> updateToSend y' = updateToSend y
         \<and> returned y' \<and> receivers y \<le> receivers y'
         \<and> (out = LoadUpdateBlocks \<or> out = CloseReturns)"
  using assms by (cases e) (auto split: if_splits)

text \<open>
  C2, as the code has it. Once \<^verbatim>\<open>run\<close> has returned, whatever is tried next, the store
  and the relay stay as they are, no request is answered, and no \<^verbatim>\<open>LoadAll\<close> or
  \<^verbatim>\<open>LoadUpdate\<close> returns: the only things that still happen are further callers
  blocking in \<^verbatim>\<open>LoadUpdate\<close> and a first \<^verbatim>\<open>Close\<close> returning. The number of callers
  blocked in \<^verbatim>\<open>LoadUpdate\<close> never goes down: nothing sends on \<^verbatim>\<open>s.update\<close> or closes
  it, so they stay blocked. The loop returns at the step that receives from the closed
  stop channel.
\<close>

theorem stopped_serves_and_releases_nothing:
  assumes "returned y" and "exec str y evs = (z, outs)"
  shows "spec z = spec y \<and> updateRelay z = updateRelay y \<and> updateToSend z = updateToSend y
         \<and> returned z \<and> receivers y \<le> receivers z
         \<and> (\<forall>out \<in> set outs. out = LoadUpdateBlocks \<or> out = CloseReturns)
         \<and> (stop_closed y0 \<and> \<not> returned y0 \<longrightarrow>
               step str y0 RecvStop = Some (y0\<lparr>returned := True\<rparr>, RunReturns))"
proof -
  have "spec z = spec y \<and> updateRelay z = updateRelay y \<and> updateToSend z = updateToSend y
      \<and> returned z \<and> receivers y \<le> receivers z
      \<and> (\<forall>out \<in> set outs. out = LoadUpdateBlocks \<or> out = CloseReturns)"
    using assms
  proof (induction evs arbitrary: y z outs)
    case Nil
    then show ?case by simp
  next
    case (Cons e evs)
    show ?case
    proof (cases "step str y e")
      case None
      with Cons.prems have "exec str y evs = (z, outs)" by simp
      from Cons.IH [OF Cons.prems(1) this] show ?thesis .
    next
      case (Some p)
      obtain y' out where p: "p = (y', out)" by (cases p) auto
      obtain z' outs' where rest': "exec str y' evs = (z', outs')"
        by (cases "exec str y' evs") auto
      with Cons.prems(2) Some p have rest: "exec str y' evs = (z, outs')" and outs: "outs = out # outs'"
        by simp_all
      note st = step_after_return [OF Cons.prems(1) Some [unfolded p]]
      from st have "returned y'" by simp
      from Cons.IH [OF this rest] st show ?thesis
        unfolding outs by auto
    qed
  qed
  then show ?thesis by simp
qed

theorem stopped_serves_and_releases_nothing_witness:
  "returned \<lparr>spec = \<lparr>defaults = [Rt ''__config'' ''A''], routes = [Rt ''foo'' ''X'']\<rparr>,
             updateRelay = True, updateToSend = Upd [Rt ''foo'' ''X''] [] None,
             stop_closed = True, returned = True, receivers = 1\<rparr>
   \<and> exec route_body
        \<lparr>spec = \<lparr>defaults = [Rt ''__config'' ''A''], routes = [Rt ''foo'' ''X'']\<rparr>,
          updateRelay = True, updateToSend = Upd [Rt ''foo'' ''X''] [] None,
          stop_closed = True, returned = True, receivers = 1\<rparr>
        [SendUpdate, RecvRequest (Req '''' ''PUT'' [Rt ''bar'' ''Y''] []), RecvGetAll, CallLoadUpdate,
         SendUpdate]
       = (\<lparr>spec = \<lparr>defaults = [Rt ''__config'' ''A''], routes = [Rt ''foo'' ''X'']\<rparr>,
           updateRelay = True, updateToSend = Upd [Rt ''foo'' ''X''] [] None,
           stop_closed = True, returned = True, receivers = 2\<rparr>,
          [LoadUpdateBlocks])
   \<and> (1::nat) \<le> 2"
proof -
  have e: "exec route_body
        \<lparr>spec = \<lparr>defaults = [Rt ''__config'' ''A''], routes = [Rt ''foo'' ''X'']\<rparr>,
          updateRelay = True, updateToSend = Upd [Rt ''foo'' ''X''] [] None,
          stop_closed = True, returned = True, receivers = 1\<rparr>
        [SendUpdate, RecvRequest (Req '''' ''PUT'' [Rt ''bar'' ''Y''] []), RecvGetAll, CallLoadUpdate,
         SendUpdate]
       = (\<lparr>spec = \<lparr>defaults = [Rt ''__config'' ''A''], routes = [Rt ''foo'' ''X'']\<rparr>,
           updateRelay = True, updateToSend = Upd [Rt ''foo'' ''X''] [] None,
           stop_closed = True, returned = True, receivers = 2\<rparr>,
          [LoadUpdateBlocks])"
    by simp
  show ?thesis
    using e stopped_serves_and_releases_nothing [OF _ e] by simp
qed

text \<open>
  C2 as stated says that the callers blocked in \<^verbatim>\<open>LoadUpdate\<close> are released once the
  loop has stopped. A caller blocks in \<^verbatim>\<open>LoadUpdate\<close> on a new system, \<^verbatim>\<open>Close\<close> is
  called and the loop takes the stop case. Then a send, a request, another send and a
  snapshot are tried: none happens, nothing is returned to the caller, and it is still
  blocked at the end.
\<close>

theorem blocked_LoadUpdate_released_counterexample:
  "exec route_body (New [Rt ''__config'' ''A''] [])
      [CallLoadUpdate, CallClose, RecvStop, SendUpdate,
       RecvRequest (Req '''' ''PUT'' [Rt ''foo'' ''X''] []), SendUpdate, RecvGetAll]
     = (\<lparr>spec = \<lparr>defaults = [Rt ''__config'' ''A''], routes = []\<rparr>,
         updateRelay = False, updateToSend = Upd [] [] None,
         stop_closed = True, returned = True, receivers = 1\<rparr>,
        [LoadUpdateBlocks, CloseReturns, RunReturns])"
  by (simp add: New_def uniqueRoutes_def zero_update_def)

end
